theory Spec2Isabelle
  imports Complex_Main
begin

chapter \<open>The model\<close>

section \<open>Frame buffer (src/utils/frameBuffer.ts)\<close>

text \<open>
  The class \<^verbatim>\<open>FrameBuffer\<close> holds a queue of opaque chunks, its configuration and three
  running counters. The configuration field \<^verbatim>\<open>maxSize\<close> is a queue depth: every value the
  repository stores there is an integer (the literal 5 of the recording hook, the default 8,
  or the result of \<^verbatim>\<open>Math.ceil\<close> in \<^verbatim>\<open>adjustQueueDepth\<close>), so it is an \<open>int\<close> here.
  Frame rates are JavaScript numbers, modelled as reals.
\<close>

datatype DropStrategy = DropOldest | DropNewest

record 'a FrameBuffer =
  queue :: "'a list"
  maxSize :: int
  dropStrategy :: DropStrategy
  targetFps :: real
  framesReceived :: nat
  framesDropped :: nat
  framesProcessed :: nat

text \<open>\<^verbatim>\<open>Partial<FrameBufferConfig>\<close>: every field may be absent.\<close>

record FrameBufferConfig =
  cfg_maxSize :: "int option"
  cfg_dropStrategy :: "DropStrategy option"
  cfg_targetFps :: "real option"

text \<open>
  The constructor fills absent fields with \<^verbatim>\<open>||\<close>, which also replaces the falsy number 0
  by the default.
\<close>

definition new_FrameBuffer :: "FrameBufferConfig \<Rightarrow> 'a FrameBuffer" where
  "new_FrameBuffer config =
     \<lparr> queue = [],
       maxSize = (case cfg_maxSize config of
                    None \<Rightarrow> 8
                  | Some m \<Rightarrow> if m = 0 then 8 else m),
       dropStrategy = (case cfg_dropStrategy config of
                         None \<Rightarrow> DropOldest
                       | Some d \<Rightarrow> d),
       targetFps = (case cfg_targetFps config of
                      None \<Rightarrow> 30
                    | Some f \<Rightarrow> if f = 0 then 30 else f),
       framesReceived = 0,
       framesDropped = 0,
       framesProcessed = 0 \<rparr>"

text \<open>
  \<^verbatim>\<open>adjustQueueDepth(fps)\<close>: \<^verbatim>\<open>calculated = Math.ceil((fps / 30) * 5)\<close>, then
  \<^verbatim>\<open>maxSize = Math.max(3, Math.min(8, calculated))\<close>.
\<close>

definition adjustQueueDepth :: "real \<Rightarrow> 'a FrameBuffer \<Rightarrow> 'a FrameBuffer" where
  "adjustQueueDepth fps fb =
     (let calculated = \<lceil>(fps / 30) * 5\<rceil>
      in fb\<lparr>maxSize := max 3 (min 8 calculated)\<rparr>)"

text \<open>
  \<^verbatim>\<open>Array.prototype.shift\<close> and \<^verbatim>\<open>pop\<close> remove the first and the last element and leave an
  empty array empty, as \<open>tl\<close> and \<open>butlast\<close> do.
\<close>

definition shift :: "'a list \<Rightarrow> 'a list" where
  "shift q = tl q"

definition pop :: "'a list \<Rightarrow> 'a list" where
  "pop q = butlast q"

text \<open>\<^verbatim>\<open>add(frame)\<close> returns the boolean of the source together with the updated buffer.\<close>

definition add :: "'a \<Rightarrow> 'a FrameBuffer \<Rightarrow> bool \<times> 'a FrameBuffer" where
  "add frame fb =
     (let fb1 = fb\<lparr>framesReceived := framesReceived fb + 1\<rparr>;
          fb2 = (if maxSize fb1 \<le> int (length (queue fb1))
                 then (let fb' = fb1\<lparr>framesDropped := framesDropped fb1 + 1\<rparr>
                       in if dropStrategy fb' = DropOldest
                          then fb'\<lparr>queue := shift (queue fb')\<rparr>
                          else fb'\<lparr>queue := pop (queue fb')\<rparr>)
                 else fb1)
      in (True, fb2\<lparr>queue := queue fb2 @ [frame]\<rparr>))"

text \<open>\<^verbatim>\<open>get()\<close>: a falsy frame is not counted; chunks are objects, so only absence is falsy.\<close>

definition get :: "'a FrameBuffer \<Rightarrow> 'a option \<times> 'a FrameBuffer" where
  "get fb =
     (case queue fb of
        [] \<Rightarrow> (None, fb)
      | frame # rest \<Rightarrow>
          (Some frame, fb\<lparr>queue := rest, framesProcessed := framesProcessed fb + 1\<rparr>))"

definition getAll :: "'a FrameBuffer \<Rightarrow> 'a list \<times> 'a FrameBuffer" where
  "getAll fb =
     (let frames = queue fb
      in (frames, fb\<lparr>queue := [],
                     framesProcessed := framesProcessed fb + length frames\<rparr>))"

definition clear :: "'a FrameBuffer \<Rightarrow> 'a FrameBuffer" where
  "clear fb = fb\<lparr>queue := []\<rparr>"

definition getQueueDepth :: "'a FrameBuffer \<Rightarrow> nat" where
  "getQueueDepth fb = length (queue fb)"

definition dropRate :: "'a FrameBuffer \<Rightarrow> real" where
  "dropRate fb =
     (if 0 < framesReceived fb
      then (real (framesDropped fb) / real (framesReceived fb)) * 100
      else 0)"

text \<open>A sequence of \<^verbatim>\<open>add\<close> calls, one per chunk of the list, in order.\<close>

fun add_all :: "'a list \<Rightarrow> 'a FrameBuffer \<Rightarrow> 'a FrameBuffer" where
  "add_all [] fb = fb"
| "add_all (frame # frames) fb = add_all frames (snd (add frame fb))"

section \<open>Crop rectangle of the recording compositor (src/hooks/useVideoRecorder.ts)\<close>

text \<open>
  A recording region is stored normalised: four fractions of the capture surface. The
  capture surface is the video element's \<^verbatim>\<open>videoWidth\<close> and \<^verbatim>\<open>videoHeight\<close>, with the
  fallbacks \<^verbatim>\<open>|| 1920\<close> and \<^verbatim>\<open>|| 1080\<close> when the element reports 0. Fractions are JavaScript
  numbers, modelled as reals; pixel counts are integers.
\<close>

record Region =
  region_x :: real
  region_y :: real
  region_width :: real
  region_height :: real

record CropRect =
  rect_x :: int
  rect_y :: int
  rect_width :: int
  rect_height :: int

definition videoSize :: "nat \<Rightarrow> nat \<Rightarrow> int \<times> int" where
  "videoSize videoWidth videoHeight =
     (if videoWidth = 0 then 1920 else int videoWidth,
      if videoHeight = 0 then 1080 else int videoHeight)"

text \<open>
  The crop of \<^verbatim>\<open>startRecording\<close>: the whole surface without a region; otherwise the origin
  is \<^verbatim>\<open>Math.max(0, Math.min(width - 1, Math.floor(raw)))\<close> and the extent is
  \<^verbatim>\<open>Math.max(1, Math.min(width - cropX, Math.floor(raw)))\<close>.
\<close>

definition computeCropRect :: "Region option \<Rightarrow> int \<Rightarrow> int \<Rightarrow> CropRect" where
  "computeCropRect region width height =
     (case region of
        None \<Rightarrow> \<lparr>rect_x = 0, rect_y = 0, rect_width = width, rect_height = height\<rparr>
      | Some r \<Rightarrow>
          (let rawCropX = region_x r * of_int width;
               rawCropY = region_y r * of_int height;
               rawCropWidth = region_width r * of_int width;
               rawCropHeight = region_height r * of_int height;
               cropX = max 0 (min (width - 1) \<lfloor>rawCropX\<rfloor>);
               cropY = max 0 (min (height - 1) \<lfloor>rawCropY\<rfloor>);
               cropWidth = max 1 (min (width - cropX) \<lfloor>rawCropWidth\<rfloor>);
               cropHeight = max 1 (min (height - cropY) \<lfloor>rawCropHeight\<rfloor>)
           in \<lparr>rect_x = cropX, rect_y = cropY,
               rect_width = cropWidth, rect_height = cropHeight\<rparr>))"

section \<open>The recording hook (src/hooks/useVideoRecorder.ts)\<close>

text \<open>
  The hook keeps React state (\<^verbatim>\<open>isRecording\<close>, \<^verbatim>\<open>isPaused\<close>, \<^verbatim>\<open>recordingDuration\<close>, the
  settings) and mutable refs (the streams, the canvas, the recorder, the frame buffer and
  the flag \<^verbatim>\<open>isProcessingRef\<close>). Both are fields of one record, passed explicitly. Feeds are
  identified by numbers. What the hook does to the outside (feeds opened and stopped, the
  canvas, the temporary file, the recorder, alerts) is appended to the field \<open>effects\<close>, in
  the order of the source.
\<close>

datatype MediaRecorderState = RecorderInactive | RecorderRecording | RecorderPaused

datatype SaveFormat = Mp4 | Gif

text \<open>
  \<^verbatim>\<open>finalStream\<close>: the stream captured from the canvas at a frame rate, or the display
  stream itself.
\<close>

datatype VideoSource = CanvasStream real | DisplayStream nat

datatype Effect =
    OpenDisplayFeed nat
  | OpenMicrophoneFeed nat
  | OpenCameraFeed nat
  | StopFeed nat
  | CreateCanvas int int
  | StopDrawing
  | OpenTempFile
  | CreateMediaRecorder VideoSource
  | StartMediaRecorder
  | PauseMediaRecorder
  | ResumeMediaRecorder
  | StopMediaRecorder
  | AlertStartFailed string
  | AlertSaveFailed string
  | AlertLicenseLimit

record HookState =
  isRecording :: bool
  isPaused :: bool
  recordingDuration :: nat
  targetFrameRate :: real
  isExporting :: bool
  exportProgress :: real
  includeCamera :: bool
  includeMicrophone :: bool
  includeSystemAudio :: bool
  saveFormat :: SaveFormat
  isProcessingRef :: bool
  recordingRegionRef :: "Region option"
  displayStreamRef :: "nat option"
  cameraStreamRef :: "nat option"
  systemAudioStreamRef :: "nat option"
  recordingCanvasRef :: "(int \<times> int) option"
  originalVideoSizeRef :: "(int \<times> int) option"
  streamRef :: "VideoSource option"
  mediaRecorderRef :: "MediaRecorderState option"
  frameBufferRef :: "nat FrameBuffer option"
  effects :: "Effect list"

text \<open>
  What the platform answers during one \<^verbatim>\<open>startRecording\<close> call: the outcome of each awaited
  request (\<open>Inl\<close> or \<open>None\<close> when the request is rejected), the dimensions the video element
  reports, and \<^verbatim>\<open>navigator.hardwareConcurrency\<close>.
\<close>

record StartEnv =
  isElectron :: bool
  displayStream :: "string + nat"
  micStream :: "nat option"
  camStream :: "nat option"
  videoWidth :: nat
  videoHeight :: nat
  hardwareConcurrency :: nat
  startRecordingStream_success :: bool
  mediaRecorder_error :: "string option"

subsection \<open>Performance heuristics (PerformanceOptimizer)\<close>

definition getCPUCores :: "nat \<Rightarrow> nat" where
  "getCPUCores hc = (if hc = 0 then 4 else hc)"

definition calculateOptimalScale :: "int \<Rightarrow> int \<Rightarrow> real \<Rightarrow> real" where
  "calculateOptimalScale width height fps = 1"

definition calculateOptimalFps :: "nat \<Rightarrow> int \<Rightarrow> int \<Rightarrow> real" where
  "calculateOptimalFps hc width height =
     (let cores = getCPUCores hc; pixels = width * height
      in if cores < 4 \<or> 2560 * 1440 < pixels then 30
         else if 4 \<le> cores \<and> cores < 8 \<and> pixels \<le> 1920 * 1080 then 60
         else 60)"

subsection \<open>Cleanup, stop, pause and resume\<close>

definition stopRef :: "nat option \<Rightarrow> Effect list" where
  "stopRef r = (case r of None \<Rightarrow> [] | Some i \<Rightarrow> [StopFeed i])"

definition cleanupStreams :: "HookState \<Rightarrow> HookState" where
  "cleanupStreams s =
     s\<lparr>cameraStreamRef := None,
       displayStreamRef := None,
       systemAudioStreamRef := None,
       recordingCanvasRef := None,
       frameBufferRef := None,
       effects := effects s @ stopRef (cameraStreamRef s) @ stopRef (displayStreamRef s)
                    @ stopRef (systemAudioStreamRef s)
                    @ (case recordingCanvasRef s of None \<Rightarrow> [] | Some c \<Rightarrow> [StopDrawing])\<rparr>"

definition stopRecording :: "HookState \<Rightarrow> HookState" where
  "stopRecording s =
     (case mediaRecorderRef s of
        None \<Rightarrow> cleanupStreams s
      | Some st \<Rightarrow>
          if st \<noteq> RecorderInactive
          then s\<lparr>mediaRecorderRef := Some RecorderInactive,
                 isRecording := False,
                 isPaused := False,
                 effects := effects s @ [StopMediaRecorder]\<rparr>
          else cleanupStreams s)"

definition pauseRecording :: "HookState \<Rightarrow> HookState" where
  "pauseRecording s =
     (if mediaRecorderRef s = Some RecorderRecording
      then s\<lparr>mediaRecorderRef := Some RecorderPaused,
             isPaused := True,
             effects := effects s @ [PauseMediaRecorder]\<rparr>
      else s)"

definition resumeRecording :: "HookState \<Rightarrow> HookState" where
  "resumeRecording s =
     (if mediaRecorderRef s = Some RecorderPaused
      then s\<lparr>mediaRecorderRef := Some RecorderRecording,
             isPaused := False,
             effects := effects s @ [ResumeMediaRecorder]\<rparr>
      else s)"

subsection \<open>startRecording\<close>

text \<open>
  The synchronous prefix of \<^verbatim>\<open>startRecording\<close>, up to its first \<^verbatim>\<open>await\<close>: the flag is set,
  the duration and the export progress are reset, the region is stored and a fresh frame
  buffer is sized for the target frame rate.
\<close>

definition startRecording_begin :: "Region option \<Rightarrow> HookState \<Rightarrow> HookState" where
  "startRecording_begin region s =
     s\<lparr>isProcessingRef := True,
       recordingDuration := 0,
       exportProgress := 0,
       recordingRegionRef := region,
       frameBufferRef := Some (adjustQueueDepth (targetFrameRate s)
         (new_FrameBuffer \<lparr>cfg_maxSize = Some 5, cfg_dropStrategy = Some DropOldest,
                            cfg_targetFps = Some (targetFrameRate s)\<rparr>))\<rparr>"

text \<open>The \<^verbatim>\<open>catch\<close> block.\<close>

definition start_failed :: "string \<Rightarrow> HookState \<Rightarrow> HookState" where
  "start_failed msg s =
     (let s1 = cleanupStreams (s\<lparr>isRecording := False, isPaused := False\<rparr>)
      in s1\<lparr>isProcessingRef := False,
            effects := effects s1 @ [AlertStartFailed (''Recording Start Failed: '' @ msg)]\<rparr>)"

text \<open>
  Composite mode: the canvas, the crop and the frame rate. The canvas is sized
  \<^verbatim>\<open>Math.round(crop * optimalScale)\<close>.
\<close>

definition compositeMode :: "StartEnv \<Rightarrow> HookState \<Rightarrow> VideoSource \<times> HookState" where
  "compositeMode env s =
     (let (width, height) = videoSize (videoWidth env) (videoHeight env);
          optimalScale = calculateOptimalScale width height (targetFrameRate s);
          optimalFps = calculateOptimalFps (hardwareConcurrency env) width height;
          actualFps = min (targetFrameRate s) optimalFps;
          crop = computeCropRect (recordingRegionRef s) width height;
          canvasWidth = round (of_int (rect_width crop) * optimalScale);
          canvasHeight = round (of_int (rect_height crop) * optimalScale)
      in (CanvasStream actualFps,
          s\<lparr>recordingCanvasRef := Some (canvasWidth, canvasHeight),
            originalVideoSizeRef := Some (width, height),
            targetFrameRate := actualFps,
            frameBufferRef := map_option (adjustQueueDepth actualFps) (frameBufferRef s),
            effects := effects s @ [CreateCanvas canvasWidth canvasHeight]\<rparr>))"

text \<open>
  Step 4 of the source: the canvas is used when the camera is included and its stream is
  there, or when a region is stored; otherwise the display stream is passed on as it is.
\<close>

definition composeStreams :: "StartEnv \<Rightarrow> nat \<Rightarrow> HookState \<Rightarrow> VideoSource \<times> HookState" where
  "composeStreams env display s =
     (let hasRegion = (recordingRegionRef s \<noteq> None)
      in if (includeCamera s \<and> cameraStreamRef s \<noteq> None) \<or> hasRegion
         then compositeMode env s
         else (DisplayStream display, s))"

text \<open>Steps 5 and 6: the temporary file (Electron only) and the recorder.\<close>

definition startMediaRecorder :: "StartEnv \<Rightarrow> VideoSource \<Rightarrow> HookState \<Rightarrow> HookState" where
  "startMediaRecorder env finalStream s =
     (if isElectron env \<and> \<not> startRecordingStream_success env
      then start_failed ''Failed to start file stream'' s
      else
        (let s1 = (if isElectron env then s\<lparr>effects := effects s @ [OpenTempFile]\<rparr> else s)
         in case mediaRecorder_error env of
              Some msg \<Rightarrow> start_failed msg s1
            | None \<Rightarrow>
                s1\<lparr>mediaRecorderRef := Some RecorderRecording,
                    isRecording := True,
                    isPaused := False,
                    effects := effects s1 @ [CreateMediaRecorder finalStream,
                                             StartMediaRecorder]\<rparr>))"

text \<open>
  Steps 1 to 3, once the display stream is there. Each step ends where the call next waits
  for the platform. First the system-audio ref is reset under Electron and the display
  stream is stored. Then the microphone is requested when it is included, and then the
  camera when it is included. A rejected microphone or camera request is logged and the
  call goes on; a rejected camera request leaves \<^verbatim>\<open>cameraStreamRef\<close> as it was.
\<close>

definition storeDisplayStream :: "StartEnv \<Rightarrow> nat \<Rightarrow> HookState \<Rightarrow> HookState" where
  "storeDisplayStream env display s =
     s\<lparr>systemAudioStreamRef := (if isElectron env then None else systemAudioStreamRef s),
       displayStreamRef := Some display,
       effects := effects s @ [OpenDisplayFeed display]\<rparr>"

definition requestMicrophone :: "StartEnv \<Rightarrow> HookState \<Rightarrow> HookState" where
  "requestMicrophone env s =
     (let picStream = (if includeMicrophone s then micStream env else None)
      in case picStream of
           None \<Rightarrow> s
         | Some mic \<Rightarrow> s\<lparr>effects := effects s @ [OpenMicrophoneFeed mic]\<rparr>)"

definition requestCamera :: "StartEnv \<Rightarrow> HookState \<Rightarrow> HookState" where
  "requestCamera env s =
     (if includeCamera s
      then (case camStream env of
              None \<Rightarrow> s
            | Some cam \<Rightarrow>
                s\<lparr>cameraStreamRef := Some cam,
                  effects := effects s @ [OpenCameraFeed cam]\<rparr>)
      else s)"

definition acquireFeeds :: "StartEnv \<Rightarrow> nat \<Rightarrow> HookState \<Rightarrow> HookState" where
  "acquireFeeds env display s =
     requestCamera env (requestMicrophone env (storeDisplayStream env display s))"

text \<open>
  The body of the \<^verbatim>\<open>try\<close> after the first \<^verbatim>\<open>await\<close>, followed by \<^verbatim>\<open>finally\<close>, which clears
  the flag on every path.
\<close>

definition startRecording_setup :: "StartEnv \<Rightarrow> HookState \<Rightarrow> HookState" where
  "startRecording_setup env s =
     (let done =
        (case displayStream env of
           Inl msg \<Rightarrow> start_failed msg s
         | Inr display \<Rightarrow>
             (let s3 = acquireFeeds env display s;
                  (finalStream, s4) = composeStreams env display s3;
                  s5 = s4\<lparr>streamRef := Some finalStream\<rparr>
              in startMediaRecorder env finalStream s5))
      in done\<lparr>isProcessingRef := False\<rparr>)"

text \<open>
  The whole call. A call that finds the flag set returns at once. The source identifier
  only selects the feed the platform opens, which \<open>env\<close> stands for.
\<close>

definition startRecording :: "StartEnv \<Rightarrow> string \<Rightarrow> Region option \<Rightarrow> HookState \<Rightarrow> HookState" where
  "startRecording env sourceId region s =
     (if isProcessingRef s then s
      else startRecording_setup env (startRecording_begin region s))"

text \<open>
  \<^verbatim>\<open>startRecording\<close> is asynchronous: while it awaits a request, other handlers of the hook
  can run and a second call can arrive. \<open>setupStates\<close> lists, in order, the states of a call
  between its steps, from the state \<open>s\<close> its synchronous prefix leaves; the call waits for
  the platform in states of this list only. It waits for the display stream in \<open>s\<close>; for
  the microphone, when it is included, once the display stream is stored; for the camera,
  when it is included, after the microphone step; in composite mode for the video elements
  and the 200 ms timer, the fresh canvas already stored in \<^verbatim>\<open>recordingCanvasRef\<close> (a fresh
  canvas measures 300 by 150); and under Electron for the temporary file, once \<^verbatim>\<open>streamRef\<close>
  is set. What follows the last await is synchronous. A call whose display request is
  rejected waits in \<open>s\<close> only.
\<close>

definition setupStates :: "StartEnv \<Rightarrow> HookState \<Rightarrow> HookState list" where
  "setupStates env s =
     s # (case displayStream env of
            Inl msg \<Rightarrow> []
          | Inr display \<Rightarrow>
              (let s1 = storeDisplayStream env display s;
                   s2 = requestMicrophone env s1;
                   s3 = requestCamera env s2;
                   hasRegion = (recordingRegionRef s3 \<noteq> None);
                   canvas = (if (includeCamera s3 \<and> cameraStreamRef s3 \<noteq> None) \<or> hasRegion
                             then [s3\<lparr>recordingCanvasRef := Some (300, 150)\<rparr>] else []);
                   (finalStream, s4) = composeStreams env display s3;
                   s5 = s4\<lparr>streamRef := Some finalStream\<rparr>
               in [s1, s2, s3] @ canvas @ [s5]))"

text \<open>The state of a freshly mounted hook with the default settings.\<close>

definition initialHookState :: HookState where
  "initialHookState =
     \<lparr> isRecording = False, isPaused = False, recordingDuration = 0, targetFrameRate = 30,
       isExporting = False, exportProgress = 0, includeCamera = False, includeMicrophone = True,
       includeSystemAudio = True, saveFormat = Mp4, isProcessingRef = False,
       recordingRegionRef = None, displayStreamRef = None, cameraStreamRef = None,
       systemAudioStreamRef = None, recordingCanvasRef = None, originalVideoSizeRef = None,
       streamRef = None, mediaRecorderRef = None, frameBufferRef = None, effects = [] \<rparr>"

text \<open>
  A platform on which every request succeeds, without a camera: an Electron window, a
  1920 by 1080 screen, eight cores.
\<close>

definition exampleEnv :: StartEnv where
  "exampleEnv =
     \<lparr> isElectron = True, displayStream = Inr 1, micStream = Some 2, camStream = None,
       videoWidth = 1920, videoHeight = 1080, hardwareConcurrency = 8,
       startRecordingStream_success = True, mediaRecorder_error = None \<rparr>"

subsection \<open>Duration timer and the auto-stop effects\<close>

text \<open>
  \<^verbatim>\<open>getMaxRecordingDuration\<close> of the license service, as a function of \<^verbatim>\<open>isAuthorized()\<close>.
\<close>

definition getMaxRecordingDuration :: "bool \<Rightarrow> nat" where
  "getMaxRecordingDuration isAuthorized = (if isAuthorized then 0 else 600)"

text \<open>
  A React effect reads the state of the render it belongs to (\<open>snap\<close>) and acts on the
  current refs and state (\<open>s\<close>): \<^verbatim>\<open>stopRecordingRef.current()\<close> looks at the recorder as it is
  when the effect runs. The first effect stops a GIF recording at 60 seconds; the second
  enforces the license limit \<open>maxDuration\<close>, the value \<^verbatim>\<open>getMaxRecordingDuration()\<close> returns.
\<close>

definition gifAutoStopEffect :: "HookState \<Rightarrow> HookState \<Rightarrow> HookState" where
  "gifAutoStopEffect snap s =
     (if isRecording snap \<and> saveFormat snap = Gif \<and> 60 \<le> recordingDuration snap
      then stopRecording s
      else s)"

definition licenseLimitEffect :: "nat \<Rightarrow> HookState \<Rightarrow> HookState \<Rightarrow> HookState" where
  "licenseLimitEffect maxDuration snap s =
     (if isRecording snap \<and> \<not> isPaused snap
      then (if 0 < maxDuration \<and> maxDuration \<le> recordingDuration snap
            then (let s1 = stopRecording s
                  in s1\<lparr>effects := effects s1 @ [AlertLicenseLimit]\<rparr>)
            else s)
      else s)"

text \<open>One pass of the two effects after a render, in the order of the source.\<close>

definition runEffects :: "nat \<Rightarrow> HookState \<Rightarrow> HookState" where
  "runEffects maxDuration s = licenseLimitEffect maxDuration s (gifAutoStopEffect s s)"

text \<open>
  What can happen during a session: the one-second interval fires (it exists only while
  recording and not paused), or the user pauses, resumes or stops.
\<close>

datatype HookEvent = Tick | Pause | Resume | Stop

fun handleEvent :: "HookEvent \<Rightarrow> HookState \<Rightarrow> HookState" where
  "handleEvent Tick s =
     (if isRecording s \<and> \<not> isPaused s
      then s\<lparr>recordingDuration := recordingDuration s + 1\<rparr>
      else s)"
| "handleEvent Pause s = pauseRecording s"
| "handleEvent Resume s = resumeRecording s"
| "handleEvent Stop s = stopRecording s"

text \<open>
  After an event the component renders and its effects run; when they change the state it
  renders again and they run once more. Two passes are modelled; the claim's theorem shows
  that a further pass changes nothing in the states a session reaches.
\<close>

definition step :: "nat \<Rightarrow> HookEvent \<Rightarrow> HookState \<Rightarrow> HookState" where
  "step maxDuration ev s = runEffects maxDuration (runEffects maxDuration (handleEvent ev s))"

fun run :: "nat \<Rightarrow> HookEvent list \<Rightarrow> HookState \<Rightarrow> HookState" where
  "run maxDuration [] s = s"
| "run maxDuration (ev # evs) s = run maxDuration evs (step maxDuration ev s)"

text \<open>The number of license notices shown so far.\<close>

definition licenseAlerts :: "HookState \<Rightarrow> nat" where
  "licenseAlerts s = length (filter (\<lambda>e. e = AlertLicenseLimit) (effects s))"

text \<open>The state \<^verbatim>\<open>startRecording\<close> leaves when it succeeds.\<close>

definition sessionStarted :: "HookState \<Rightarrow> bool" where
  "sessionStarted s \<longleftrightarrow>
     isRecording s \<and> \<not> isPaused s \<and> mediaRecorderRef s = Some RecorderRecording \<and>
     recordingDuration s = 0"

text \<open>The effect of creating the off-screen canvas.\<close>

definition isCreateCanvas :: "Effect \<Rightarrow> bool" where
  "isCreateCanvas e = (case e of CreateCanvas w h \<Rightarrow> True | _ \<Rightarrow> False)"

text \<open>
  The webcam overlay is active in a call when the camera is included and a camera stream is
  held at step 4: the one this call obtained, or one still held from before.
\<close>

definition overlayActive :: "StartEnv \<Rightarrow> HookState \<Rightarrow> bool" where
  "overlayActive env s \<longleftrightarrow>
     includeCamera s \<and> (camStream env \<noteq> None \<or> cameraStreamRef s \<noteq> None)"

section \<open>The duration limit: an abstraction of the hook state\<close>

text \<open>
  The auto-stop effects read and write six components of the hook state only: whether it is
  recording, whether it is paused, the duration, the recorder's state, the save format and
  the number of license notices shown. The functions below are the hook's operations on
  these six components; the lemmas on the duration limit show that each operation of the
  hook acts on the components as its counterpart does. They serve the proof of C6 and add
  nothing to the model.
\<close>

type_synonym Core = "bool \<times> bool \<times> nat \<times> MediaRecorderState option \<times> SaveFormat \<times> nat"

definition core :: "HookState \<Rightarrow> Core" where
  "core s = (isRecording s, isPaused s, recordingDuration s, mediaRecorderRef s, saveFormat s,
             licenseAlerts s)"

fun core_stop :: "Core \<Rightarrow> Core" where
  "core_stop (r, p, d, mr, f, a) =
     (case mr of
        None \<Rightarrow> (r, p, d, mr, f, a)
      | Some st \<Rightarrow> if st \<noteq> RecorderInactive then (False, False, d, Some RecorderInactive, f, a)
                   else (r, p, d, mr, f, a))"

fun core_gif :: "Core \<Rightarrow> Core \<Rightarrow> Core" where
  "core_gif (r, p, d, mr, f, a) c = (if r \<and> f = Gif \<and> 60 \<le> d then core_stop c else c)"

fun core_alert :: "Core \<Rightarrow> Core" where
  "core_alert (r, p, d, mr, f, a) = (r, p, d, mr, f, a + 1)"

fun core_license :: "nat \<Rightarrow> Core \<Rightarrow> Core \<Rightarrow> Core" where
  "core_license m (r, p, d, mr, f, a) c =
     (if r \<and> \<not> p then (if 0 < m \<and> m \<le> d then core_alert (core_stop c) else c) else c)"

definition core_pass :: "nat \<Rightarrow> Core \<Rightarrow> Core" where
  "core_pass m c = core_license m c (core_gif c c)"

fun core_handle :: "HookEvent \<Rightarrow> Core \<Rightarrow> Core" where
  "core_handle Tick (r, p, d, mr, f, a) = (if r \<and> \<not> p then (r, p, d + 1, mr, f, a) else (r, p, d, mr, f, a))"
| "core_handle Pause (r, p, d, mr, f, a) =
     (if mr = Some RecorderRecording then (r, True, d, Some RecorderPaused, f, a) else (r, p, d, mr, f, a))"
| "core_handle Resume (r, p, d, mr, f, a) =
     (if mr = Some RecorderPaused then (r, False, d, Some RecorderRecording, f, a) else (r, p, d, mr, f, a))"
| "core_handle Stop c = core_stop c"

text \<open>
  What holds in every state a session reaches: the recorder exists, the two flags agree with
  it, a recording session has shown no license notice and is below the license limit (when
  there is one) and below the 60 seconds of a GIF; a stopped session has shown at most one
  notice, and one only at the limit.
\<close>

fun coreInv :: "nat \<Rightarrow> nat \<Rightarrow> Core \<Rightarrow> bool" where
  "coreInv a0 m (r, p, d, mr, f, a) \<longleftrightarrow>
     mr \<noteq> None \<and>
     (r \<longleftrightarrow> mr \<noteq> Some RecorderInactive) \<and>
     (p \<longleftrightarrow> mr = Some RecorderPaused) \<and>
     (if r then a = a0 \<and> (0 < m \<longrightarrow> d < m) \<and> (f = Gif \<longrightarrow> d < 60)
      else a0 \<le> a \<and> a \<le> a0 + 1 \<and> (a = a0 + 1 \<longrightarrow> 0 < m \<and> m \<le> d))"

section \<open>The second-stage export of the main process (src/index.tsx)\<close>

text \<open>
  The handlers \<^verbatim>\<open>start-recording-stream\<close> and \<^verbatim>\<open>stop-recording-stream\<close> share two module
  variables, the write stream and the temporary path. The file system is the set of paths
  that exist: \<^verbatim>\<open>unlink\<close> and \<^verbatim>\<open>copyFile\<close> reject exactly when their source does not exist.
  The values sent on the channel \<^verbatim>\<open>export-progress\<close> are collected in \<open>sent\<close>, and the
  options of the last ffmpeg command in \<open>ffmpegOptions\<close>.
\<close>

record MainState =
  recordingWriteStream :: bool
  recordingTempPath :: "string option"
  files :: "string set"
  sent :: "real list"
  ffmpegOptions :: "string list option"

text \<open>
  The object the stop handler resolves with; an absent property is \<open>None\<close>.
\<close>

record StopResult =
  success :: bool
  path :: "string option"
  error :: "string option"
  canceled :: "bool option"

subsection \<open>Strings\<close>

text \<open>\<^verbatim>\<open>toLowerCase\<close> on the ASCII letters, which is all a codec name contains.\<close>

definition toLowerCase :: "string \<Rightarrow> string" where
  "toLowerCase str =
     map (\<lambda>c. let n = (of_char c :: nat)
               in if 65 \<le> n \<and> n \<le> 90 then char_of (n + 32) else c) str"

definition endsWith :: "string \<Rightarrow> string \<Rightarrow> bool" where
  "endsWith str suffix \<longleftrightarrow>
     length suffix \<le> length str \<and> drop (length str - length suffix) str = suffix"

text \<open>\<^verbatim>\<open>Number.prototype.toString\<close> on a natural number.\<close>

fun toString :: "nat \<Rightarrow> string" where
  "toString n =
     (if n < 10 then [char_of (48 + n)]
      else toString (n div 10) @ [char_of (48 + n mod 10)])"

declare toString.simps [simp del]

text \<open>A string that JavaScript treats as false: absent or empty.\<close>

definition falsy :: "string option \<Rightarrow> bool" where
  "falsy v \<longleftrightarrow> v = None \<or> v = Some []"

subsection \<open>Hardware tier, preset and CRF\<close>

datatype PerformanceTier = TierLow | TierMedium | TierHigh

definition getPerformanceTier :: "nat \<Rightarrow> PerformanceTier" where
  "getPerformanceTier cores =
     (if cores < 4 then TierLow else if cores < 8 then TierMedium else TierHigh)"

definition getRecommendedPreset :: "bool \<Rightarrow> nat \<Rightarrow> string" where
  "getRecommendedPreset darwin cores =
     (if darwin then ''medium''
      else case getPerformanceTier cores of
             TierLow \<Rightarrow> ''fast''
           | TierMedium \<Rightarrow> ''medium''
           | TierHigh \<Rightarrow> ''slow'')"

definition getRecommendedCRF :: "bool \<Rightarrow> nat \<Rightarrow> nat" where
  "getRecommendedCRF darwin cores =
     (if darwin then 18
      else case getPerformanceTier cores of
             TierLow \<Rightarrow> 20
           | TierMedium \<Rightarrow> 18
           | TierHigh \<Rightarrow> 16)"

subsection \<open>The probe and the choice of ffmpeg options for MP4\<close>

text \<open>
  What \<^verbatim>\<open>ffprobe\<close> reports: the streams with their type and codec name, and the duration of
  the container. The probe as a whole is \<open>None\<close> when \<^verbatim>\<open>ffprobe\<close> fails.
\<close>

record ProbeStream =
  codec_type :: "string option"
  codec_name :: "string option"

record ProbeMetadata =
  streams :: "ProbeStream list option"
  format_duration :: "real option"

text \<open>
  \<^verbatim>\<open>probeMetadata\<close> is kept only when the probe succeeded and reports streams.
\<close>

definition probeMetadata :: "ProbeMetadata option \<Rightarrow> ProbeStream list option" where
  "probeMetadata probe = (case probe of None \<Rightarrow> None | Some metadata \<Rightarrow> streams metadata)"

text \<open>
  \<^verbatim>\<open>streams.find(s => s.codec_type === t)?.codec_name?.toLowerCase()\<close>
\<close>

definition codecOf :: "string \<Rightarrow> ProbeStream list option \<Rightarrow> string option" where
  "codecOf t md =
     (case md of
        None \<Rightarrow> None
      | Some ss \<Rightarrow>
          (case find (\<lambda>s. codec_type s = Some t) ss of
             None \<Rightarrow> None
           | Some stream \<Rightarrow> map_option toLowerCase (codec_name stream)))"

definition videoCodecOf :: "ProbeMetadata option \<Rightarrow> string option" where
  "videoCodecOf probe = codecOf ''video'' (probeMetadata probe)"

definition audioCodecOf :: "ProbeMetadata option \<Rightarrow> string option" where
  "audioCodecOf probe = codecOf ''audio'' (probeMetadata probe)"

definition useStreamCopy :: "ProbeMetadata option \<Rightarrow> bool" where
  "useStreamCopy probe =
     (case probeMetadata probe of
        None \<Rightarrow> False
      | Some ss \<Rightarrow>
          (let videoCodec = videoCodecOf probe; audioCodec = audioCodecOf probe
           in videoCodec = Some ''h264'' \<and>
              (audioCodec = Some ''aac'' \<or> audioCodec = Some ''mp3'' \<or> falsy audioCodec)))"

definition x264_params :: string where
  "x264_params = ''keyint=250:min-keyint=25:scenecut=60:ref=6:bframes=6:me=umh:subme=9:merange=24:trellis=2:aq-mode=2:aq-strength=1.0''"

definition mp4OutputOptions :: "string \<Rightarrow> nat \<Rightarrow> ProbeMetadata option \<Rightarrow> string list" where
  "mp4OutputOptions preset crf probe =
     (if useStreamCopy probe
      then [''-c'', ''copy'', ''-movflags'', ''+faststart'', ''-async'', ''1'', ''-vsync'', ''cfr'']
      else
        (let videoCodec = videoCodecOf probe;
             audioCodec = audioCodecOf probe;
             videoOptions =
               (if videoCodec = Some ''h264'' then [''-c:v'', ''copy'']
                else [''-c:v'', ''libx264'', ''-preset'', preset, ''-crf'', toString crf,
                      ''-profile:v'', ''high'', ''-level'', ''4.2'', ''-pix_fmt'', ''yuv420p'',
                      ''-threads'', ''0'', ''-tune'', ''film'', ''-x264-params'', x264_params]);
             audioOptions =
               (if audioCodec = Some ''aac'' \<or> audioCodec = Some ''mp3''
                then [''-c:a'', ''copy'']
                else [''-c:a'', ''aac'', ''-b:a'', ''192k'', ''-ar'', ''48000'', ''-ac'', ''2''])
         in videoOptions @ audioOptions @ [''-movflags'', ''+faststart'']
              @ [''-async'', ''1'', ''-vsync'', ''cfr'', ''-r'', ''30'']))"

definition gifOutputOptions :: "string list" where
  "gifOutputOptions =
     [''-vf'', ''fps=15,scale=800:-1:flags=lanczos,split[s0][s1];[s0]palettegen[p];[s1][p]paletteuse'',
      ''-loop'', ''0'']"




subsection \<open>Progress events of one ffmpeg job\<close>

text \<open>
  While ffmpeg runs, three things can happen, in any order: the fallback interval fires (at
  some number of seconds since the job's start time), ffmpeg reports progress (a percentage
  when it has one, and a time mark, here already matched against the pattern
  \<^verbatim>\<open>(\d+):(\d+):(\d+\.\d+)\<close> and parsed into hours, minutes and seconds, \<open>None\<close> when it
  is absent or does not match), and the command reports that it has started.
\<close>

datatype FfmpegEvent =
    IntervalTick real
  | NativeProgress "real option" "(nat \<times> nat \<times> real) option"
  | CommandStart

definition send :: "real \<Rightarrow> MainState \<Rightarrow> MainState" where
  "send v st = st\<lparr>sent := sent st @ [v]\<rparr>"

text \<open>
  The GIF job. The state of the closure is \<^verbatim>\<open>lastProgress\<close>; the job registers no handler
  for the start of the command.
\<close>

fun gifEvent :: "real \<Rightarrow> FfmpegEvent \<Rightarrow> real \<times> MainState \<Rightarrow> real \<times> MainState" where
  "gifEvent inputDuration (IntervalTick elapsed) (lastProgress, st) =
     (if lastProgress < 90
      then (lastProgress + 5, send (lastProgress + 5) st)
      else (lastProgress, st))"
| "gifEvent inputDuration (NativeProgress percent timemark) (lastProgress, st) =
     (case percent of
        Some pc \<Rightarrow> (let percent' = min 95 (max 5 pc) in (percent', send percent' st))
      | None \<Rightarrow>
          (case timemark of
             None \<Rightarrow> (lastProgress, st)
           | Some (hours, minutes, seconds) \<Rightarrow>
               if 0 < inputDuration
               then (let currentTime = real hours * 3600 + real minutes * 60 + seconds;
                         percent' = min 95 (max 5 ((currentTime / inputDuration) * 100))
                     in (percent', send percent' st))
               else (lastProgress, st)))"
| "gifEvent inputDuration CommandStart (lastProgress, st) = (lastProgress, st)"

text \<open>
  The MP4 job. \<^verbatim>\<open>Math.round\<close> rounds half up, as \<open>round\<close> does. The fallback interval
  jumps to 95 under stream copy; otherwise it estimates the progress from the elapsed time
  and the hardware tier.
\<close>

definition speedFactor :: "nat \<Rightarrow> real" where
  "speedFactor cores =
     (case getPerformanceTier cores of
        TierLow \<Rightarrow> 3 / 10
      | TierMedium \<Rightarrow> 7 / 10
      | TierHigh \<Rightarrow> 12 / 10)"

definition timeBasedProgress :: "nat \<Rightarrow> real \<Rightarrow> real \<Rightarrow> real" where
  "timeBasedProgress cores actualDuration elapsed =
     (let estimatedTotal =
            (if 0 < actualDuration then actualDuration / speedFactor cores
             else max 5 (if actualDuration = 0 then 10 else actualDuration))
      in min 90 (max 10 ((elapsed / estimatedTotal) * 100)))"

fun mp4Event ::
  "bool \<Rightarrow> nat \<Rightarrow> real \<Rightarrow> FfmpegEvent \<Rightarrow> real \<times> MainState \<Rightarrow> real \<times> MainState" where
  "mp4Event copy cores actualDuration (IntervalTick elapsed) (lastProgress, st) =
     (if copy
      then (if lastProgress < 95 then (95, send 95 st) else (lastProgress, st))
      else
        (let progress = timeBasedProgress cores actualDuration elapsed
         in if lastProgress < progress
            then (progress, send (of_int (round progress)) st)
            else if lastProgress < 50
            then (lastProgress + 3, send (of_int (round (lastProgress + 3))) st)
            else (lastProgress, st)))"
| "mp4Event copy cores actualDuration (NativeProgress percent timemark) (lastProgress, st) =
     (case percent of
        Some pc \<Rightarrow>
          (let percent' = min 95 (max 10 pc)
           in (percent', send (of_int (round percent')) st))
      | None \<Rightarrow>
          (case timemark of
             None \<Rightarrow> (lastProgress, st)
           | Some (hours, minutes, seconds) \<Rightarrow>
               if 0 < actualDuration
               then (let currentTime = real hours * 3600 + real minutes * 60 + seconds;
                         percent' = min 95 (max 10 ((currentTime / actualDuration) * 100))
                     in (percent', send (of_int (round percent')) st))
               else (lastProgress, st)))"
| "mp4Event copy cores actualDuration CommandStart (lastProgress, st) =
     (lastProgress, send 15 st)"

subsection \<open>The handlers\<close>

text \<open>
  What the outside answers during one \<^verbatim>\<open>stop-recording-stream\<close> call: the save dialog,
  \<^verbatim>\<open>ffprobe\<close> on the temporary file, the platform and its number of cores, the events of the
  ffmpeg job and how it ends (\<open>None\<close> for \<^verbatim>\<open>end\<close>, a message for \<^verbatim>\<open>error\<close>).
\<close>

record StopEnv =
  dialog_canceled :: bool
  dialog_filePath :: "string option"
  ffprobe :: "ProbeMetadata option"
  darwin :: bool
  cpus :: nat
  ffmpeg_events :: "FfmpegEvent list"
  ffmpeg_error :: "string option"

definition unlink :: "string \<Rightarrow> string set \<Rightarrow> string + string set" where
  "unlink p fs = (if p \<in> fs then Inr (fs - {p}) else Inl ''ENOENT: no such file or directory'')"

definition copyFile :: "string \<Rightarrow> string \<Rightarrow> string set \<Rightarrow> string + string set" where
  "copyFile src dst fs =
     (if src \<in> fs then Inr (insert dst fs) else Inl ''ENOENT: no such file or directory'')"

text \<open>
  \<^verbatim>\<open>start-recording-stream\<close>: the temporary file is named after the clock and always ends
  in \<^verbatim>\<open>.webm\<close>; \<open>stamp\<close> is \<^verbatim>\<open>Date.now()\<close> and \<open>tmpdir\<close> is \<^verbatim>\<open>os.tmpdir()\<close>. The path
  is stored before the stream is created; \<open>failure\<close> is the message of the exception
  \<^verbatim>\<open>createWriteStream\<close> throws, if it throws.
\<close>

definition start_recording_stream ::
  "string \<Rightarrow> nat \<Rightarrow> string option \<Rightarrow> MainState \<Rightarrow> StopResult \<times> MainState" where
  "start_recording_stream tmpdir stamp failure st =
     (let tempInput = tmpdir @ ''/stream-recording-'' @ toString stamp @ ''.webm'';
          st1 = st\<lparr>recordingTempPath := Some tempInput\<rparr>
      in case failure of
           Some err \<Rightarrow>
             (\<lparr>success = False, path = None, error = Some err, canceled = None\<rparr>, st1)
         | None \<Rightarrow>
             (\<lparr>success = True, path = Some tempInput, error = None, canceled = None\<rparr>,
              st1\<lparr>recordingWriteStream := True, files := insert tempInput (files st1)\<rparr>))"

definition inputDurationOf :: "ProbeMetadata option \<Rightarrow> real" where
  "inputDurationOf probe =
     (case probe of
        None \<Rightarrow> 0
      | Some metadata \<Rightarrow>
          (case format_duration metadata of
             None \<Rightarrow> 0
           | Some d \<Rightarrow> d))"

text \<open>
  \<^verbatim>\<open>actualDuration\<close> of the MP4 branch: the probed duration when the probe reports streams
  and a duration that is not 0, the earlier \<^verbatim>\<open>inputDuration\<close> otherwise.
\<close>

definition actualDurationOf :: "ProbeMetadata option \<Rightarrow> real" where
  "actualDurationOf probe =
     (case probe of
        None \<Rightarrow> inputDurationOf probe
      | Some metadata \<Rightarrow>
          (case streams metadata of
             None \<Rightarrow> inputDurationOf probe
           | Some ss \<Rightarrow>
               (case format_duration metadata of
                  None \<Rightarrow> inputDurationOf probe
                | Some d \<Rightarrow> if d \<noteq> 0 then d else inputDurationOf probe)))"

text \<open>
  The three ways of producing the output file. Each returns the rejection message, if any,
  and the state. A job that ends well has written the output file and sends 100.
\<close>

definition finishJob :: "StopEnv \<Rightarrow> string \<Rightarrow> MainState \<Rightarrow> string option \<times> MainState" where
  "finishJob env filePath st =
     (case ffmpeg_error env of
        None \<Rightarrow> (None, (send 100 st)\<lparr>files := insert filePath (files (send 100 st))\<rparr>)
      | Some err \<Rightarrow> (Some err, st))"

definition exportGif :: "StopEnv \<Rightarrow> string \<Rightarrow> real \<Rightarrow> MainState \<Rightarrow> string option \<times> MainState" where
  "exportGif env filePath inputDuration st =
     (let st1 = st\<lparr>ffmpegOptions := Some gifOutputOptions\<rparr>;
          (lastProgress, st2) = fold (gifEvent inputDuration) (ffmpeg_events env) (5, st1)
      in finishJob env filePath st2)"

definition exportMp4 :: "StopEnv \<Rightarrow> string \<Rightarrow> MainState \<Rightarrow> string option \<times> MainState" where
  "exportMp4 env filePath st =
     (let copy = useStreamCopy (ffprobe env);
          actualDuration = actualDurationOf (ffprobe env);
          preset = getRecommendedPreset (darwin env) (cpus env);
          crf = getRecommendedCRF (darwin env) (cpus env);
          st1 = st\<lparr>ffmpegOptions := Some (mp4OutputOptions preset crf (ffprobe env))\<rparr>;
          st2 = send 10 st1;
          (lastProgress, st3) =
             fold (mp4Event copy (cpus env) actualDuration) (ffmpeg_events env) (10, st2)
      in finishJob env filePath st3)"

definition exportCopy :: "string \<Rightarrow> string \<Rightarrow> MainState \<Rightarrow> string option \<times> MainState" where
  "exportCopy tempInput filePath st =
     (let st1 = send 50 st
      in case copyFile tempInput filePath (files st1) of
           Inl err \<Rightarrow> (Some err, st1)
         | Inr fs \<Rightarrow> (None, send 100 (st1\<lparr>files := fs\<rparr>)))"

definition processExport ::
  "StopEnv \<Rightarrow> SaveFormat \<Rightarrow> string \<Rightarrow> string \<Rightarrow> MainState \<Rightarrow> string option \<times> MainState" where
  "processExport env format tempInput filePath st =
     (if format = Gif then exportGif env filePath (inputDurationOf (ffprobe env)) st
      else if endsWith filePath ''.webm'' \<and> endsWith tempInput ''.webm''
      then exportCopy tempInput filePath st
      else if endsWith filePath ''.mp4'' then exportMp4 env filePath st
      else exportCopy tempInput filePath st)"

text \<open>
  \<^verbatim>\<open>stop-recording-stream\<close>. The stream is closed first. When the dialog is cancelled or
  gives no file path, the temporary file is unlinked, a rejection being ignored, and the
  result is the cancelled one. Otherwise 5 is sent, the export runs, and the temporary file
  is unlinked; a rejection of the export or of that unlink is caught and reported as an
  error.
\<close>

definition cancelExport :: "string \<Rightarrow> MainState \<Rightarrow> StopResult \<times> MainState" where
  "cancelExport tempInput st =
     (\<lparr>success = False, path = None, error = None, canceled = Some True\<rparr>,
      case unlink tempInput (files st) of
        Inl err \<Rightarrow> st
      | Inr fs \<Rightarrow> st\<lparr>files := fs\<rparr>)"

definition runExport ::
  "StopEnv \<Rightarrow> SaveFormat \<Rightarrow> string \<Rightarrow> string \<Rightarrow> MainState \<Rightarrow> StopResult \<times> MainState" where
  "runExport env format tempInput filePath st =
     (let st2 = send 5 st;
          (failure, st3) = processExport env format tempInput filePath st2
      in case failure of
           Some err \<Rightarrow>
             (\<lparr>success = False, path = None, error = Some err, canceled = None\<rparr>, st3)
         | None \<Rightarrow>
             (case unlink tempInput (files st3) of
                Inl err \<Rightarrow>
                  (\<lparr>success = False, path = None, error = Some err, canceled = None\<rparr>, st3)
              | Inr fs \<Rightarrow>
                  (\<lparr>success = True, path = Some filePath, error = None, canceled = None\<rparr>,
                   st3\<lparr>files := fs\<rparr>)))"

definition stop_recording_stream ::
  "StopEnv \<Rightarrow> SaveFormat \<Rightarrow> MainState \<Rightarrow> StopResult \<times> MainState" where
  "stop_recording_stream env format st =
     (if \<not> recordingWriteStream st
      then (\<lparr>success = False, path = None, error = Some ''No active stream'', canceled = None\<rparr>,
            st)
      else
        (let st1 = st\<lparr>recordingWriteStream := False\<rparr>
         in case recordingTempPath st1 of
              None \<Rightarrow>
                (\<lparr>success = False, path = None, error = Some ''No temp file path'',
                  canceled = None\<rparr>, st1)
            | Some tempInput \<Rightarrow>
                (case dialog_filePath env of
                   None \<Rightarrow> cancelExport tempInput st1
                 | Some filePath \<Rightarrow>
                     if dialog_canceled env \<or> filePath = []
                     then cancelExport tempInput st1
                     else runExport env format tempInput filePath st1)))"

subsection \<open>Notions of the claims about the export\<close>

text \<open>The user declines the save dialog: it is cancelled or returns no file path.\<close>

definition declined :: "StopEnv \<Rightarrow> bool" where
  "declined env \<longleftrightarrow> dialog_canceled env \<or> falsy (dialog_filePath env)"

text \<open>The three shapes of a result.\<close>

definition isSuccess :: "StopResult \<Rightarrow> bool" where
  "isSuccess res \<longleftrightarrow> success res \<and> path res \<noteq> None \<and> error res = None \<and> canceled res = None"

definition isError :: "StopResult \<Rightarrow> bool" where
  "isError res \<longleftrightarrow> \<not> success res \<and> path res = None \<and> error res \<noteq> None \<and> canceled res = None"

definition isCanceled :: "StopResult \<Rightarrow> bool" where
  "isCanceled res \<longleftrightarrow>
     \<not> success res \<and> path res = None \<and> error res = None \<and> canceled res = Some True"

text \<open>The values sent on \<^verbatim>\<open>export-progress\<close> during one call.\<close>

definition progressOf :: "MainState \<Rightarrow> MainState \<Rightarrow> real list" where
  "progressOf st st' = drop (length (sent st)) (sent st')"

text \<open>
  A value sent while a job runs: between 5 and 95, and an integer for MP4 output. The MP4
  job itself only sends integers between 10 and 95.
\<close>

definition progressValue :: "SaveFormat \<Rightarrow> real \<Rightarrow> bool" where
  "progressValue format v \<longleftrightarrow> 5 \<le> v \<and> v \<le> 95 \<and> (format = Mp4 \<longrightarrow> v \<in> \<int>)"

definition mp4Value :: "real \<Rightarrow> bool" where
  "mp4Value v \<longleftrightarrow> 10 \<le> v \<and> v \<le> 95 \<and> v \<in> \<int>"

text \<open>
  What an export leaves: the values it sent (ending in 100 exactly when it did not fail),
  the output file when it did not fail, and the module variables as they were.
\<close>

definition exported ::
  "SaveFormat \<Rightarrow> string \<Rightarrow> MainState \<Rightarrow> string option \<times> MainState \<Rightarrow> real list \<Rightarrow> bool" where
  "exported format filePath st r vs \<longleftrightarrow>
     sent (snd r) = sent st @ vs \<and>
     (case fst r of
        None \<Rightarrow> (\<exists>ws. vs = ws @ [100] \<and> (\<forall>v\<in>set ws. progressValue format v)) \<and>
                files (snd r) = insert filePath (files st)
      | Some err \<Rightarrow> (\<forall>v\<in>set vs. progressValue format v) \<and> files (snd r) = files st) \<and>
     recordingWriteStream (snd r) = recordingWriteStream st \<and>
     recordingTempPath (snd r) = recordingTempPath st"

subsection \<open>An example export\<close>

text \<open>A probe of a recording with a VP8 video track and no audio track.\<close>

definition vp8_without_audio :: "ProbeMetadata option" where
  "vp8_without_audio =
     Some \<lparr>streams = Some [\<lparr>codec_type = Some ''video'', codec_name = Some ''vp8''\<rparr>],
           format_duration = Some 12\<rparr>"

text \<open>A probe of a recording with an H.264 video track and an AAC audio track.\<close>

definition h264_with_aac :: "ProbeMetadata option" where
  "h264_with_aac =
     Some \<lparr>streams = Some [\<lparr>codec_type = Some ''video'', codec_name = Some ''h264''\<rparr>,
                           \<lparr>codec_type = Some ''audio'', codec_name = Some ''aac''\<rparr>],
           format_duration = Some 12\<rparr>"

text \<open>
  An idle main process, and the state after \<^verbatim>\<open>start-recording-stream\<close> at clock 1700 with
  the temporary directory \<^verbatim>\<open>/tmp\<close>. The example environment accepts the dialog with an MP4
  path; ffmpeg reports its start and then a progress of 2 percent, and ends well.
\<close>

definition idleMainState :: MainState where
  "idleMainState =
     \<lparr>recordingWriteStream = False, recordingTempPath = None, files = {}, sent = [],
      ffmpegOptions = None\<rparr>"

definition exampleRecording :: MainState where
  "exampleRecording = snd (start_recording_stream ''/tmp'' 1700 None idleMainState)"

definition exampleStopEnv :: StopEnv where
  "exampleStopEnv =
     \<lparr>dialog_canceled = False, dialog_filePath = Some ''/home/user/recording.mp4'',
      ffprobe = vp8_without_audio, darwin = False, cpus = 8,
      ffmpeg_events = [CommandStart, NativeProgress (Some 2) None], ffmpeg_error = None\<rparr>"

section \<open>The recorder's onstop handler (src/hooks/useVideoRecorder.ts)\<close>

text \<open>
  \<^verbatim>\<open>startRecording\<close> installs this handler on the recorder it creates; the recorder fires it
  after \<^verbatim>\<open>stop()\<close>. \<open>electron\<close> is the constant \<^verbatim>\<open>isElectron\<close> of the call that created the
  recorder. The handler first releases the streams and the canvas. Under Electron it then
  shows the export state and awaits a 100 ms timer and \<^verbatim>\<open>stopRecordingStream\<close>: this is where
  \<open>onstop_begin\<close> ends, and other handlers can run before the result is there. With the
  result, \<open>onstop_end\<close> hides the export state, sets the progress to 100, reports a failure
  that is not a cancellation (an absent \<^verbatim>\<open>error\<close> prints as \<^verbatim>\<open>undefined\<close>), drops the frame
  buffer and clears the flag \<^verbatim>\<open>isProcessingRef\<close>. Outside Electron nothing is awaited and the
  result is not looked at.
\<close>

definition onstop_begin :: "bool \<Rightarrow> HookState \<Rightarrow> HookState" where
  "onstop_begin electron s =
     (let s1 = s\<lparr>cameraStreamRef := None,
                 displayStreamRef := None,
                 systemAudioStreamRef := None,
                 recordingCanvasRef := None,
                 effects := effects s @ stopRef (cameraStreamRef s)
                      @ stopRef (displayStreamRef s) @ stopRef (systemAudioStreamRef s)
                      @ (case recordingCanvasRef s of None \<Rightarrow> [] | Some c \<Rightarrow> [StopDrawing])\<rparr>
      in if electron then s1\<lparr>isExporting := True, exportProgress := 0\<rparr> else s1)"

definition onstop_end :: "bool \<Rightarrow> StopResult \<Rightarrow> HookState \<Rightarrow> HookState" where
  "onstop_end electron result s =
     (let s1 =
        (if electron
         then (let s2 = s\<lparr>isExporting := False, exportProgress := 100\<rparr>
               in if success result then s2
                  else if canceled result \<noteq> Some True
                  then s2\<lparr>effects := effects s2 @
                          [AlertSaveFailed (''Save failed: '' @
                             (case error result of None \<Rightarrow> ''undefined'' | Some err \<Rightarrow> err))]\<rparr>
                  else s2)
         else s)
      in s1\<lparr>frameBufferRef := None, isProcessingRef := False\<rparr>)"

definition onstop :: "bool \<Rightarrow> StopResult \<Rightarrow> HookState \<Rightarrow> HookState" where
  "onstop electron result s = onstop_end electron result (onstop_begin electron s)"

text \<open>
  The result of an export the user saved, and the state of the hook after a session was
  started from the initial state and then stopped by the user.
\<close>

definition savedResult :: StopResult where
  "savedResult =
     \<lparr>success = True, path = Some ''/home/user/recording.mp4'', error = None, canceled = None\<rparr>"

definition stoppedSession :: HookState where
  "stoppedSession = stopRecording (startRecording exampleEnv ''screen:0'' None initialHookState)"

chapter \<open>Properties and claims\<close>

section \<open>Properties of the frame buffer\<close>

lemma add_returns_true: "fst (add frame fb) = True"
  by (simp add: add_def Let_def)

lemma add_maxSize: "maxSize (snd (add frame fb)) = maxSize fb"
  by (simp add: add_def Let_def)

lemma add_dropStrategy: "dropStrategy (snd (add frame fb)) = dropStrategy fb"
  by (simp add: add_def Let_def)

lemma add_framesReceived: "framesReceived (snd (add frame fb)) = framesReceived fb + 1"
  by (simp add: add_def Let_def)

lemma add_not_full:
  "int (length (queue fb)) < maxSize fb \<Longrightarrow>
   queue (snd (add frame fb)) = queue fb @ [frame] \<and>
   framesDropped (snd (add frame fb)) = framesDropped fb"
  by (simp add: add_def Let_def)

lemma add_full_oldest:
  "maxSize fb \<le> int (length (queue fb)) \<Longrightarrow> dropStrategy fb = DropOldest \<Longrightarrow>
   queue (snd (add frame fb)) = tl (queue fb) @ [frame] \<and>
   framesDropped (snd (add frame fb)) = framesDropped fb + 1"
  by (simp add: add_def Let_def shift_def)

lemma add_full_newest:
  "maxSize fb \<le> int (length (queue fb)) \<Longrightarrow> dropStrategy fb = DropNewest \<Longrightarrow>
   queue (snd (add frame fb)) = butlast (queue fb) @ [frame] \<and>
   framesDropped (snd (add frame fb)) = framesDropped fb + 1"
  by (simp add: add_def Let_def pop_def)

lemma add_length_bounded:
  assumes "1 \<le> maxSize fb" and "int (length (queue fb)) \<le> maxSize fb"
  shows "int (length (queue (snd (add frame fb)))) \<le> maxSize fb"
proof (cases "int (length (queue fb)) < maxSize fb")
  case True
  then show ?thesis using add_not_full [OF True, of frame] by simp
next
  case False
  with assms have full: "maxSize fb \<le> int (length (queue fb))" by simp
  with assms have len: "int (length (queue fb)) = maxSize fb" by simp
  with assms have ne: "queue fb \<noteq> []" by auto
  show ?thesis
  proof (cases "dropStrategy fb")
    case DropOldest
    from add_full_oldest [OF full DropOldest, of frame] ne len show ?thesis by simp
  next
    case DropNewest
    from add_full_newest [OF full DropNewest, of frame] ne len show ?thesis by simp
  qed
qed

lemma add_all_maxSize: "maxSize (add_all frames fb) = maxSize fb"
  by (induction frames arbitrary: fb) (simp_all add: add_maxSize)

lemma add_all_dropStrategy: "dropStrategy (add_all frames fb) = dropStrategy fb"
  by (induction frames arbitrary: fb) (simp_all add: add_dropStrategy)

lemma add_all_length_bounded:
  "1 \<le> maxSize fb \<Longrightarrow> int (length (queue fb)) \<le> maxSize fb \<Longrightarrow>
   int (length (queue (add_all frames fb))) \<le> maxSize fb"
proof (induction frames arbitrary: fb)
  case Nil
  then show ?case by simp
next
  case (Cons frame frames)
  have "int (length (queue (snd (add frame fb)))) \<le> maxSize (snd (add frame fb))"
    using add_length_bounded [OF Cons.prems] by (simp add: add_maxSize)
  moreover have "1 \<le> maxSize (snd (add frame fb))"
    using Cons.prems by (simp add: add_maxSize)
  ultimately have "int (length (queue (add_all frames (snd (add frame fb)))))
      \<le> maxSize (snd (add frame fb))"
    by (rule Cons.IH [rotated])
  then show ?case by (simp add: add_maxSize)
qed

lemma new_FrameBuffer_fields:
  "m \<noteq> 0 \<Longrightarrow>
   maxSize (new_FrameBuffer \<lparr>cfg_maxSize = Some m, cfg_dropStrategy = ds, cfg_targetFps = tf\<rparr>) = m"
  "queue (new_FrameBuffer config) = []"
  "framesDropped (new_FrameBuffer config) = 0"
  "framesReceived (new_FrameBuffer config) = 0"
  by (simp_all add: new_FrameBuffer_def)

lemma adjustQueueDepth_maxSize:
  "maxSize (adjustQueueDepth fps fb) = max 3 (min 8 \<lceil>(fps / 30) * 5\<rceil>)"
  by (simp add: adjustQueueDepth_def Let_def)

lemma adjustQueueDepth_mono:
  fixes fb :: "'a FrameBuffer" and fb' :: "'b FrameBuffer"
  assumes "fps \<le> fps'"
  shows "maxSize (adjustQueueDepth fps fb) \<le> maxSize (adjustQueueDepth fps' fb')"
proof -
  from assms have "(fps / 30) * 5 \<le> (fps' / 30) * 5" by simp
  then have "\<lceil>(fps / 30) * 5\<rceil> \<le> \<lceil>(fps' / 30) * 5\<rceil>" by (rule ceiling_mono)
  then show ?thesis by (simp add: adjustQueueDepth_maxSize)
qed

lemma adjustQueueDepth_doubling:
  fixes fb :: "'a FrameBuffer" and fb' :: "'b FrameBuffer"
  shows "maxSize (adjustQueueDepth fps fb) \<le> maxSize (adjustQueueDepth (2 * fps) fb')"
proof (cases "0 \<le> fps")
  case True
  then have "fps \<le> 2 * fps" by simp
  then show ?thesis by (rule adjustQueueDepth_mono)
next
  case False
  then have "(fps / 30) * 5 \<le> 0" by simp
  then have "\<lceil>(fps / 30) * 5\<rceil> \<le> 0" by (simp add: ceiling_le_zero)
  then have "maxSize (adjustQueueDepth fps fb) = 3"
    by (simp add: adjustQueueDepth_maxSize)
  moreover have "3 \<le> maxSize (adjustQueueDepth (2 * fps) fb')"
    by (simp add: adjustQueueDepth_maxSize)
  ultimately show ?thesis by simp
qed

lemma add_overfull_length:
  assumes "maxSize fb \<le> int (length (queue fb))" and "queue fb \<noteq> []"
  shows "length (queue (snd (add frame fb))) = length (queue fb) \<and>
         framesDropped (snd (add frame fb)) = framesDropped fb + 1"
proof (cases "dropStrategy fb")
  case DropOldest
  from add_full_oldest [OF assms(1) DropOldest, of frame] assms(2) show ?thesis by simp
next
  case DropNewest
  from add_full_newest [OF assms(1) DropNewest, of frame] assms(2) show ?thesis by simp
qed

lemma add_all_overfull:
  "maxSize fb \<le> int (length (queue fb)) \<Longrightarrow> queue fb \<noteq> [] \<Longrightarrow>
   length (queue (add_all frames fb)) = length (queue fb) \<and>
   framesDropped (add_all frames fb) = framesDropped fb + length frames"
proof (induction frames arbitrary: fb)
  case Nil
  then show ?case by simp
next
  case (Cons frame frames)
  let ?fb = "snd (add frame fb)"
  from add_overfull_length [OF Cons.prems, of frame]
  have step: "length (queue ?fb) = length (queue fb)"
    "framesDropped ?fb = framesDropped fb + 1" by simp_all
  from step(1) Cons.prems have ge: "maxSize ?fb \<le> int (length (queue ?fb))"
    by (simp add: add_maxSize)
  from step(1) Cons.prems(2) have ne: "queue ?fb \<noteq> []"
    by (metis length_0_conv)
  from Cons.IH [OF ge ne] step show ?case by simp
qed

section \<open>Claims about the frame buffer\<close>

text \<open>
  C3. Start from an empty buffer constructed with a capacity \<open>m \<ge> 1\<close> and run any sequence
  of \<^verbatim>\<open>add\<close> calls. Then the configured capacity is still \<open>m\<close> and the queue holds at most
  \<open>m\<close> chunks. A further \<^verbatim>\<open>add\<close> always returns true. When the queue is full, that \<^verbatim>\<open>add\<close>
  removes exactly one entry before it appends the new chunk (the head under DropOldest, the
  tail under DropNewest: the queue is not empty and keeps its length) and increments
  \<^verbatim>\<open>framesDropped\<close> by one; when the queue is not full, nothing is evicted, the chunk is
  appended and \<^verbatim>\<open>framesDropped\<close> stays as it is.
\<close>

theorem C3_add_keeps_queue_within_capacity:
  fixes frames :: "'a list"
  assumes "1 \<le> m"
    and "fb = add_all frames
           (new_FrameBuffer \<lparr>cfg_maxSize = Some m, cfg_dropStrategy = ds, cfg_targetFps = tf\<rparr>)"
  shows "maxSize fb = m \<and>
         int (length (queue fb)) \<le> m \<and>
         fst (add frame fb) = True \<and>
         (int (length (queue fb)) = m \<longrightarrow>
            queue fb \<noteq> [] \<and>
            (dropStrategy fb = DropOldest \<longrightarrow>
               queue (snd (add frame fb)) = tl (queue fb) @ [frame]) \<and>
            (dropStrategy fb = DropNewest \<longrightarrow>
               queue (snd (add frame fb)) = butlast (queue fb) @ [frame]) \<and>
            length (queue (snd (add frame fb))) = length (queue fb) \<and>
            framesDropped (snd (add frame fb)) = framesDropped fb + 1) \<and>
         (int (length (queue fb)) < m \<longrightarrow>
            queue (snd (add frame fb)) = queue fb @ [frame] \<and>
            framesDropped (snd (add frame fb)) = framesDropped fb)"
proof -
  let ?fb0 = "new_FrameBuffer \<lparr>cfg_maxSize = Some m, cfg_dropStrategy = ds, cfg_targetFps = tf\<rparr>
                :: 'a FrameBuffer"
  from assms(1) have m0: "maxSize ?fb0 = m" by (simp add: new_FrameBuffer_fields)
  have q0: "queue ?fb0 = []" by (simp add: new_FrameBuffer_fields)
  have cap: "maxSize fb = m" using assms(2) m0 by (simp add: add_all_maxSize)
  have "int (length (queue (add_all frames ?fb0))) \<le> maxSize ?fb0"
    by (rule add_all_length_bounded) (use assms(1) m0 q0 in simp_all)
  then have len: "int (length (queue fb)) \<le> m" using assms(2) m0 by simp
  have full: "queue fb \<noteq> [] \<and>
       (dropStrategy fb = DropOldest \<longrightarrow>
          queue (snd (add frame fb)) = tl (queue fb) @ [frame]) \<and>
       (dropStrategy fb = DropNewest \<longrightarrow>
          queue (snd (add frame fb)) = butlast (queue fb) @ [frame]) \<and>
       length (queue (snd (add frame fb))) = length (queue fb) \<and>
       framesDropped (snd (add frame fb)) = framesDropped fb + 1"
    if eq: "int (length (queue fb)) = m"
  proof -
    from eq assms(1) have ne: "queue fb \<noteq> []" by auto
    from eq cap have ge: "maxSize fb \<le> int (length (queue fb))" by simp
    from add_overfull_length [OF ge ne, of frame] add_full_oldest [OF ge, of frame]
      add_full_newest [OF ge, of frame] ne
    show ?thesis by blast
  qed
  have room: "queue (snd (add frame fb)) = queue fb @ [frame] \<and>
       framesDropped (snd (add frame fb)) = framesDropped fb"
    if "int (length (queue fb)) < m"
    using that cap add_not_full [of fb frame] by simp
  from cap len full room show ?thesis by (simp add: add_returns_true)
qed

theorem C3_add_keeps_queue_within_capacity_witness:
  "(1::int) \<le> 2 \<and>
   queue (add_all [10, 20, 30 :: nat]
     (new_FrameBuffer \<lparr>cfg_maxSize = Some 2, cfg_dropStrategy = Some DropOldest,
                        cfg_targetFps = None\<rparr>)) = [20, 30] \<and>
   int (length (queue (add_all [10, 20, 30 :: nat]
     (new_FrameBuffer \<lparr>cfg_maxSize = Some 2, cfg_dropStrategy = Some DropOldest,
                        cfg_targetFps = None\<rparr>)))) \<le> 2 \<and>
   queue (snd (add 40 (add_all [10, 20, 30 :: nat]
     (new_FrameBuffer \<lparr>cfg_maxSize = Some 2, cfg_dropStrategy = Some DropOldest,
                        cfg_targetFps = None\<rparr>)))) = [30, 40] \<and>
   framesDropped (snd (add 40 (add_all [10, 20, 30 :: nat]
     (new_FrameBuffer \<lparr>cfg_maxSize = Some 2, cfg_dropStrategy = Some DropOldest,
                        cfg_targetFps = None\<rparr>)))) = 2"
  using C3_add_keeps_queue_within_capacity
    [of 2 "add_all [10, 20, 30 :: nat]
             (new_FrameBuffer \<lparr>cfg_maxSize = Some 2, cfg_dropStrategy = Some DropOldest,
                                cfg_targetFps = None\<rparr>)"
        "[10, 20, 30]" "Some DropOldest" None 40]
  by (simp add: add_def new_FrameBuffer_def Let_def shift_def pop_def)

text \<open>
  C4. For every frame rate, \<^verbatim>\<open>adjustQueueDepth\<close> sets the capacity to
  \<open>max 3 (min 8 (ceil (fps / 30 * 5)))\<close>. The capacity therefore lies between 3 and 8, it never
  decreases when the frame rate grows, doubling the frame rate never decreases it, and a
  frame rate of 25 gives capacity 5. Frame rates are real numbers here: the not-a-number
  value of floating point is outside the model.
\<close>

theorem C4_adjustQueueDepth_clamped_monotone:
  fixes fb :: "'a FrameBuffer"
  shows "maxSize (adjustQueueDepth fps fb) = max 3 (min 8 \<lceil>fps / 30 * 5\<rceil>) \<and>
         3 \<le> maxSize (adjustQueueDepth fps fb) \<and>
         maxSize (adjustQueueDepth fps fb) \<le> 8 \<and>
         (\<forall>fps'. fps \<le> fps' \<longrightarrow>
            maxSize (adjustQueueDepth fps fb) \<le> maxSize (adjustQueueDepth fps' fb)) \<and>
         maxSize (adjustQueueDepth fps fb) \<le> maxSize (adjustQueueDepth (2 * fps) fb) \<and>
         maxSize (adjustQueueDepth 25 fb) = 5"
proof -
  have "maxSize (adjustQueueDepth 25 fb) = 5"
    by (simp add: adjustQueueDepth_maxSize)
  moreover have "\<forall>fps'. fps \<le> fps' \<longrightarrow>
      maxSize (adjustQueueDepth fps fb) \<le> maxSize (adjustQueueDepth fps' fb)"
    using adjustQueueDepth_mono [of fps _ fb fb] by blast
  moreover have "maxSize (adjustQueueDepth fps fb) \<le> maxSize (adjustQueueDepth (2 * fps) fb)"
    by (rule adjustQueueDepth_doubling)
  ultimately show ?thesis by (simp add: adjustQueueDepth_maxSize)
qed

theorem C4_adjustQueueDepth_clamped_monotone_witness:
  "(30::real) \<le> 60 \<and>
   maxSize (adjustQueueDepth 30
     (new_FrameBuffer \<lparr>cfg_maxSize = Some 5, cfg_dropStrategy = Some DropOldest,
                        cfg_targetFps = Some 30\<rparr> :: nat FrameBuffer)) = 5 \<and>
   maxSize (adjustQueueDepth 60
     (new_FrameBuffer \<lparr>cfg_maxSize = Some 5, cfg_dropStrategy = Some DropOldest,
                        cfg_targetFps = Some 30\<rparr> :: nat FrameBuffer)) = 8 \<and>
   maxSize (adjustQueueDepth 30
     (new_FrameBuffer \<lparr>cfg_maxSize = Some 5, cfg_dropStrategy = Some DropOldest,
                        cfg_targetFps = Some 30\<rparr> :: nat FrameBuffer))
   \<le> maxSize (adjustQueueDepth 60
     (new_FrameBuffer \<lparr>cfg_maxSize = Some 5, cfg_dropStrategy = Some DropOldest,
                        cfg_targetFps = Some 30\<rparr> :: nat FrameBuffer))"
  using C4_adjustQueueDepth_clamped_monotone
    [of 30 "new_FrameBuffer \<lparr>cfg_maxSize = Some 5, cfg_dropStrategy = Some DropOldest,
                               cfg_targetFps = Some 30\<rparr> :: nat FrameBuffer"]
  by (simp add: adjustQueueDepth_def new_FrameBuffer_def)

text \<open>
  C10, as the claim states it: after \<^verbatim>\<open>adjustQueueDepth\<close> has lowered the capacity below the
  queue length, later \<^verbatim>\<open>add\<close> calls, evicting one entry each, would bring the queue back to
  the capacity. They do not: a buffer of capacity 8 holding 8 chunks is set to capacity 3 by
  a frame rate of 15; five further \<^verbatim>\<open>add\<close> calls evict five entries (the count of dropped
  frames is 5) and the queue still holds 8 chunks, above the capacity.
\<close>

theorem C10_add_does_not_drain_counterexample:
  "maxSize (adjustQueueDepth 15 (add_all [1, 2, 3, 4, 5, 6, 7, 8 :: nat]
     (new_FrameBuffer \<lparr>cfg_maxSize = Some 8, cfg_dropStrategy = Some DropOldest,
                        cfg_targetFps = Some 30\<rparr>))) = 3 \<and>
   length (queue (add_all [9, 10, 11, 12, 13]
     (adjustQueueDepth 15 (add_all [1, 2, 3, 4, 5, 6, 7, 8 :: nat]
       (new_FrameBuffer \<lparr>cfg_maxSize = Some 8, cfg_dropStrategy = Some DropOldest,
                          cfg_targetFps = Some 30\<rparr>))))) = 8 \<and>
   framesDropped (add_all [9, 10, 11, 12, 13]
     (adjustQueueDepth 15 (add_all [1, 2, 3, 4, 5, 6, 7, 8 :: nat]
       (new_FrameBuffer \<lparr>cfg_maxSize = Some 8, cfg_dropStrategy = Some DropOldest,
                          cfg_targetFps = Some 30\<rparr>)))) = 5"
  by (simp add: add_def new_FrameBuffer_def adjustQueueDepth_def Let_def shift_def pop_def)

text \<open>
  C10, amended. \<^verbatim>\<open>adjustQueueDepth\<close> changes the configured \<^verbatim>\<open>maxSize\<close> only: the queued
  chunks, the drop strategy, the target frame rate and the three counters are as before, so
  it never evicts. When the new capacity is below the queue length, the queue length stays
  above the capacity after \<^verbatim>\<open>adjustQueueDepth\<close> and after every later sequence of \<^verbatim>\<open>add\<close>
  calls: each \<^verbatim>\<open>add\<close> evicts one entry and appends one, so the length stays constant while
  \<^verbatim>\<open>framesDropped\<close> grows by one per call.
\<close>

theorem C10_adjustQueueDepth_frame:
  fixes fb :: "'a FrameBuffer"
  shows "queue (adjustQueueDepth fps fb) = queue fb \<and>
         dropStrategy (adjustQueueDepth fps fb) = dropStrategy fb \<and>
         targetFps (adjustQueueDepth fps fb) = targetFps fb \<and>
         framesReceived (adjustQueueDepth fps fb) = framesReceived fb \<and>
         framesDropped (adjustQueueDepth fps fb) = framesDropped fb \<and>
         framesProcessed (adjustQueueDepth fps fb) = framesProcessed fb \<and>
         (maxSize (adjustQueueDepth fps fb) < int (length (queue fb)) \<longrightarrow>
            (\<forall>frames.
               length (queue (add_all frames (adjustQueueDepth fps fb))) = length (queue fb) \<and>
               maxSize (add_all frames (adjustQueueDepth fps fb))
                 < int (length (queue (add_all frames (adjustQueueDepth fps fb)))) \<and>
               framesDropped (add_all frames (adjustQueueDepth fps fb))
                 = framesDropped fb + length frames))"
proof -
  let ?fb = "adjustQueueDepth fps fb"
  have frame: "queue ?fb = queue fb" "dropStrategy ?fb = dropStrategy fb"
    "targetFps ?fb = targetFps fb" "framesReceived ?fb = framesReceived fb"
    "framesDropped ?fb = framesDropped fb" "framesProcessed ?fb = framesProcessed fb"
    by (simp_all add: adjustQueueDepth_def Let_def)
  have "length (queue (add_all frames ?fb)) = length (queue fb) \<and>
        maxSize (add_all frames ?fb) < int (length (queue (add_all frames ?fb))) \<and>
        framesDropped (add_all frames ?fb) = framesDropped fb + length frames"
    if over: "maxSize ?fb < int (length (queue fb))" for frames
  proof -
    have "3 \<le> maxSize ?fb" by (simp add: adjustQueueDepth_maxSize)
    with over have ne: "queue ?fb \<noteq> []" using frame(1) by auto
    from over have ge: "maxSize ?fb \<le> int (length (queue ?fb))" using frame(1) by simp
    from add_all_overfull [OF ge ne, of frames] over frame
    show ?thesis by (simp add: add_all_maxSize)
  qed
  with frame show ?thesis by blast
qed

theorem C10_adjustQueueDepth_frame_witness:
  "maxSize (adjustQueueDepth 15 (add_all [1, 2, 3, 4, 5 :: nat]
     (new_FrameBuffer \<lparr>cfg_maxSize = Some 5, cfg_dropStrategy = Some DropNewest,
                        cfg_targetFps = Some 30\<rparr>)))
     < int (length (queue (add_all [1, 2, 3, 4, 5 :: nat]
         (new_FrameBuffer \<lparr>cfg_maxSize = Some 5, cfg_dropStrategy = Some DropNewest,
                            cfg_targetFps = Some 30\<rparr>)))) \<and>
   queue (adjustQueueDepth 15 (add_all [1, 2, 3, 4, 5 :: nat]
     (new_FrameBuffer \<lparr>cfg_maxSize = Some 5, cfg_dropStrategy = Some DropNewest,
                        cfg_targetFps = Some 30\<rparr>))) = [1, 2, 3, 4, 5] \<and>
   length (queue (add_all [6, 7]
     (adjustQueueDepth 15 (add_all [1, 2, 3, 4, 5 :: nat]
       (new_FrameBuffer \<lparr>cfg_maxSize = Some 5, cfg_dropStrategy = Some DropNewest,
                          cfg_targetFps = Some 30\<rparr>))))) = 5"
  using C10_adjustQueueDepth_frame
    [of 15 "add_all [1, 2, 3, 4, 5 :: nat]
       (new_FrameBuffer \<lparr>cfg_maxSize = Some 5, cfg_dropStrategy = Some DropNewest,
                          cfg_targetFps = Some 30\<rparr>)"]
  by (simp add: add_def new_FrameBuffer_def adjustQueueDepth_def Let_def shift_def pop_def)

section \<open>Claims about the crop rectangle\<close>

lemma crop_axis_inside:
  fixes W a b :: int
  assumes "0 < W"
  shows "0 \<le> max 0 (min (W - 1) a) \<and>
         max 0 (min (W - 1) a) + max 1 (min (W - max 0 (min (W - 1) a)) b) \<le> W \<and>
         1 \<le> max 1 (min (W - max 0 (min (W - 1) a)) b)"
proof -
  define x where "x = max 0 (min (W - 1) a)"
  have x: "0 \<le> x" "x \<le> W - 1" using assms by (simp_all add: x_def)
  have "max 1 (min (W - x) b) \<le> W - x" using x by simp
  then have "x + max 1 (min (W - x) b) \<le> W" by linarith
  moreover have "1 \<le> max 1 (min (W - x) b)" by simp
  ultimately show ?thesis using x(1) unfolding x_def by blast
qed

text \<open>
  C2. For every region whose four components lie in \<open>[0, 1]\<close> and every capture surface of
  positive width \<open>W\<close> and height \<open>H\<close>, the crop rectangle of the recording compositor has a
  non-negative origin and ends inside the surface: \<open>cropX + cropWidth \<le> W\<close> and
  \<open>cropY + cropHeight \<le> H\<close>. Its extents are at least one pixel.
\<close>

theorem C2_crop_rect_inside_capture_surface:
  assumes "0 \<le> region_x r" and "region_x r \<le> 1"
    and "0 \<le> region_y r" and "region_y r \<le> 1"
    and "0 \<le> region_width r" and "region_width r \<le> 1"
    and "0 \<le> region_height r" and "region_height r \<le> 1"
    and "0 < W" and "0 < H"
  shows "0 \<le> rect_x (computeCropRect (Some r) W H) \<and>
         0 \<le> rect_y (computeCropRect (Some r) W H) \<and>
         rect_x (computeCropRect (Some r) W H) + rect_width (computeCropRect (Some r) W H) \<le> W \<and>
         rect_y (computeCropRect (Some r) W H) + rect_height (computeCropRect (Some r) W H) \<le> H \<and>
         1 \<le> rect_width (computeCropRect (Some r) W H) \<and>
         1 \<le> rect_height (computeCropRect (Some r) W H)"
proof -
  let ?c = "computeCropRect (Some r) W H"
  have rx: "rect_x ?c = max 0 (min (W - 1) \<lfloor>region_x r * of_int W\<rfloor>)"
    by (simp only: computeCropRect_def Let_def option.case CropRect.simps)
  have ry: "rect_y ?c = max 0 (min (H - 1) \<lfloor>region_y r * of_int H\<rfloor>)"
    by (simp only: computeCropRect_def Let_def option.case CropRect.simps)
  have rw: "rect_width ?c =
      max 1 (min (W - max 0 (min (W - 1) \<lfloor>region_x r * of_int W\<rfloor>))
        \<lfloor>region_width r * of_int W\<rfloor>)"
    by (simp only: computeCropRect_def Let_def option.case CropRect.simps)
  have rh: "rect_height ?c =
      max 1 (min (H - max 0 (min (H - 1) \<lfloor>region_y r * of_int H\<rfloor>))
        \<lfloor>region_height r * of_int H\<rfloor>)"
    by (simp only: computeCropRect_def Let_def option.case CropRect.simps)
  from crop_axis_inside [OF assms(9), of "\<lfloor>region_x r * of_int W\<rfloor>"
      "\<lfloor>region_width r * of_int W\<rfloor>"]
    crop_axis_inside [OF assms(10), of "\<lfloor>region_y r * of_int H\<rfloor>"
      "\<lfloor>region_height r * of_int H\<rfloor>"]
  show ?thesis unfolding rx ry rw rh by blast
qed

theorem C2_crop_rect_inside_capture_surface_witness:
  "(0::real) \<le> 1/4 \<and> (1/4::real) \<le> 1 \<and> (0::real) \<le> 1/2 \<and> (1/2::real) \<le> 1 \<and>
   (0::int) < 1920 \<and> (0::int) < 1080 \<and>
   computeCropRect
     (Some \<lparr>region_x = 1/4, region_y = 1/4, region_width = 1/2, region_height = 1/2\<rparr>)
     1920 1080
   = \<lparr>rect_x = 480, rect_y = 270, rect_width = 960, rect_height = 540\<rparr> \<and>
   rect_x (computeCropRect
     (Some \<lparr>region_x = 1/4, region_y = 1/4, region_width = 1/2, region_height = 1/2\<rparr>)
     1920 1080)
   + rect_width (computeCropRect
     (Some \<lparr>region_x = 1/4, region_y = 1/4, region_width = 1/2, region_height = 1/2\<rparr>)
     1920 1080) \<le> 1920"
  using C2_crop_rect_inside_capture_surface
    [of "\<lparr>region_x = 1/4, region_y = 1/4, region_width = 1/2, region_height = 1/2\<rparr>"
        1920 1080]
  unfolding computeCropRect_def Let_def option.case Region.simps
  by simp

section \<open>Properties of startRecording\<close>

lemma start_failed_flag: "isProcessingRef (start_failed msg s) = False"
  by (simp add: start_failed_def cleanupStreams_def Let_def)

lemma startRecording_setup_clears_flag: "\<not> isProcessingRef (startRecording_setup env s)"
  by (simp add: startRecording_setup_def Let_def)

lemma stopRecording_flag: "isProcessingRef (stopRecording s) = isProcessingRef s"
  by (simp add: stopRecording_def cleanupStreams_def split: option.splits)

lemma pauseRecording_flag: "isProcessingRef (pauseRecording s) = isProcessingRef s"
  by (simp add: pauseRecording_def)

lemma resumeRecording_flag: "isProcessingRef (resumeRecording s) = isProcessingRef s"
  by (simp add: resumeRecording_def)

lemma start_failed_streamRef: "streamRef (start_failed msg s) = streamRef s"
  by (simp add: start_failed_def cleanupStreams_def Let_def)

lemma startMediaRecorder_streamRef: "streamRef (startMediaRecorder env fs s) = streamRef s"
  by (simp add: startMediaRecorder_def start_failed_streamRef Let_def split: option.splits)

lemma start_failed_canvas:
  "filter isCreateCanvas (effects (start_failed msg s)) = filter isCreateCanvas (effects s)"
  by (simp add: start_failed_def cleanupStreams_def Let_def stopRef_def isCreateCanvas_def
      split: option.splits)

lemma startMediaRecorder_canvas:
  "filter isCreateCanvas (effects (startMediaRecorder env fs s))
     = filter isCreateCanvas (effects s)"
  by (simp add: startMediaRecorder_def start_failed_canvas Let_def isCreateCanvas_def
      split: option.splits)

lemma startMediaRecorder_success:
  "isRecording (startMediaRecorder env fs s) \<Longrightarrow>
   CreateMediaRecorder fs \<in> set (effects (startMediaRecorder env fs s))"
  by (auto simp add: startMediaRecorder_def start_failed_def cleanupStreams_def Let_def
      split: option.splits if_splits)

lemma startRecording_unfold:
  assumes "\<not> isProcessingRef s" and "displayStream env = Inr d"
  shows "startRecording env src region s =
    (let (fs, s4) = composeStreams env d (acquireFeeds env d (startRecording_begin region s))
     in (startMediaRecorder env fs (s4\<lparr>streamRef := Some fs\<rparr>))\<lparr>isProcessingRef := False\<rparr>)"
  using assms
  by (simp add: startRecording_def startRecording_setup_def Let_def split: prod.splits)

lemma acquireFeeds_facts:
  "includeCamera (acquireFeeds env d (startRecording_begin region s)) = includeCamera s"
  "recordingRegionRef (acquireFeeds env d (startRecording_begin region s)) = region"
  "cameraStreamRef (acquireFeeds env d (startRecording_begin region s)) =
     (if includeCamera s
      then (case camStream env of None \<Rightarrow> cameraStreamRef s | Some cam \<Rightarrow> Some cam)
      else cameraStreamRef s)"
  "filter isCreateCanvas (effects (acquireFeeds env d (startRecording_begin region s)))
     = filter isCreateCanvas (effects s)"
  by (auto simp add: acquireFeeds_def storeDisplayStream_def requestMicrophone_def requestCamera_def startRecording_begin_def Let_def isCreateCanvas_def
      split: option.splits)

lemma composeStreams_cases:
  "composeStreams env d s =
     (if (includeCamera s \<and> cameraStreamRef s \<noteq> None) \<or> recordingRegionRef s \<noteq> None
      then compositeMode env s else (DisplayStream d, s))"
  by (simp add: composeStreams_def Let_def)

lemma compositeMode_facts:
  "\<exists>fps. fst (compositeMode env s) = CanvasStream fps"
  "\<exists>w h. CreateCanvas w h \<in> set (effects (snd (compositeMode env s)))"
  by (auto simp add: compositeMode_def Let_def split: prod.splits)

lemma start_failed_not_recording: "\<not> isRecording (start_failed msg s)"
  by (simp add: start_failed_def cleanupStreams_def Let_def)

lemma startMediaRecorder_started:
  assumes "isRecording (startMediaRecorder env fs s)"
  shows "\<not> isPaused (startMediaRecorder env fs s) \<and>
         mediaRecorderRef (startMediaRecorder env fs s) = Some RecorderRecording \<and>
         recordingDuration (startMediaRecorder env fs s) = recordingDuration s"
proof (cases "isElectron env \<and> \<not> startRecordingStream_success env")
  case True
  with assms start_failed_not_recording show ?thesis by (simp add: startMediaRecorder_def)
next
  case False
  show ?thesis
  proof (cases "mediaRecorder_error env")
    case None
    with False show ?thesis by (auto simp add: startMediaRecorder_def Let_def)
  next
    case (Some msg)
    with False assms start_failed_not_recording show ?thesis
      by (auto simp add: startMediaRecorder_def Let_def)
  qed
qed

lemma compose_duration:
  "recordingDuration (snd (composeStreams env d s)) = recordingDuration s"
  by (simp add: composeStreams_cases compositeMode_def Let_def split: prod.splits)

lemma acquireFeeds_duration:
  "recordingDuration (acquireFeeds env d s) = recordingDuration s"
  by (simp add: acquireFeeds_def storeDisplayStream_def requestMicrophone_def requestCamera_def Let_def split: option.splits)

lemma startRecording_sessionStarted:
  assumes "\<not> isProcessingRef s" and "isRecording (startRecording env src region s)"
  shows "sessionStarted (startRecording env src region s)"
proof (cases "displayStream env")
  case (Inl msg)
  with assms start_failed_not_recording [of msg "startRecording_begin region s"]
  show ?thesis by (simp add: startRecording_def startRecording_setup_def Let_def)
next
  case (Inr d)
  let ?b = "acquireFeeds env d (startRecording_begin region s)"
  obtain fs s4 where c: "composeStreams env d ?b = (fs, s4)"
    by (cases "composeStreams env d ?b")
  have res: "startRecording env src region s
      = (startMediaRecorder env fs (s4\<lparr>streamRef := Some fs\<rparr>))\<lparr>isProcessingRef := False\<rparr>"
    using startRecording_unfold [OF assms(1) Inr, of src region] c by simp
  from assms(2) res have "isRecording (startMediaRecorder env fs (s4\<lparr>streamRef := Some fs\<rparr>))"
    by simp
  note m = startMediaRecorder_started [OF this]
  have "recordingDuration s4 = 0"
    using compose_duration [of env d ?b] c
    by (simp add: acquireFeeds_duration startRecording_begin_def)
  with m assms(2) show ?thesis by (simp add: res sessionStarted_def)
qed

lemma storeDisplayStream_flag:
  "isProcessingRef (storeDisplayStream env d s) = isProcessingRef s"
  by (simp add: storeDisplayStream_def)

lemma requestMicrophone_flag:
  "isProcessingRef (requestMicrophone env s) = isProcessingRef s"
  by (simp add: requestMicrophone_def Let_def split: option.splits)

lemma requestCamera_flag:
  "isProcessingRef (requestCamera env s) = isProcessingRef s"
  by (simp add: requestCamera_def split: option.splits)

lemma composeStreams_flag:
  "isProcessingRef (snd (composeStreams env d s)) = isProcessingRef s"
  by (simp add: composeStreams_cases compositeMode_def Let_def split: prod.splits)

lemma setupStates_flag:
  assumes "t \<in> set (setupStates env s)"
  shows "isProcessingRef t = isProcessingRef s"
proof (cases "displayStream env")
  case (Inl msg)
  with assms show ?thesis by (simp add: setupStates_def)
next
  case (Inr d)
  let ?s3 = "requestCamera env (requestMicrophone env (storeDisplayStream env d s))"
  obtain fs s4 where c: "composeStreams env d ?s3 = (fs, s4)"
    by (cases "composeStreams env d ?s3")
  have s4: "isProcessingRef s4 = isProcessingRef s"
    using composeStreams_flag [of env d ?s3] c
    by (simp add: requestCamera_flag requestMicrophone_flag storeDisplayStream_flag)
  from assms Inr c s4 show ?thesis
    by (auto simp add: setupStates_def Let_def requestCamera_flag requestMicrophone_flag
        storeDisplayStream_flag split: if_splits)
qed

lemma setupStates_rejected:
  "displayStream env = Inl msg \<Longrightarrow>
   setupStates env s = [s] \<and>
   startRecording_setup env s = (start_failed msg s)\<lparr>isProcessingRef := False\<rparr>"
  by (simp add: setupStates_def startRecording_setup_def)

lemma setupStates_last:
  assumes "displayStream env = Inr d"
  shows "\<exists>fs. streamRef (last (setupStates env s)) = Some fs \<and>
     startRecording_setup env s =
       (startMediaRecorder env fs (last (setupStates env s)))\<lparr>isProcessingRef := False\<rparr>"
proof -
  let ?s3 = "requestCamera env (requestMicrophone env (storeDisplayStream env d s))"
  obtain fs s4 where c: "composeStreams env d ?s3 = (fs, s4)"
    by (cases "composeStreams env d ?s3")
  have l: "last (setupStates env s) = s4\<lparr>streamRef := Some fs\<rparr>"
    using assms c by (simp add: setupStates_def Let_def)
  have r: "startRecording_setup env s =
      (startMediaRecorder env fs (s4\<lparr>streamRef := Some fs\<rparr>))\<lparr>isProcessingRef := False\<rparr>"
    using assms c by (simp add: startRecording_setup_def acquireFeeds_def Let_def)
  show ?thesis unfolding l r by simp
qed

lemma gifAutoStopEffect_flag:
  "isProcessingRef (gifAutoStopEffect snap s) = isProcessingRef s"
  by (simp add: gifAutoStopEffect_def stopRecording_flag)

lemma licenseLimitEffect_flag:
  "isProcessingRef (licenseLimitEffect m snap s) = isProcessingRef s"
  by (simp add: licenseLimitEffect_def stopRecording_flag Let_def)

lemma runEffects_flag: "isProcessingRef (runEffects m s) = isProcessingRef s"
  by (simp add: runEffects_def licenseLimitEffect_flag gifAutoStopEffect_flag)

lemma handleEvent_flag: "isProcessingRef (handleEvent ev s) = isProcessingRef s"
  by (cases ev) (simp_all add: stopRecording_flag pauseRecording_flag resumeRecording_flag)

lemma step_flag: "isProcessingRef (step m ev s) = isProcessingRef s"
  by (simp add: step_def runEffects_flag handleEvent_flag)

lemma run_flag: "isProcessingRef (run m evs s) = isProcessingRef s"
  by (induction evs arbitrary: s) (simp_all add: step_flag)

lemma onstop_begin_flag: "isProcessingRef (onstop_begin electron s) = isProcessingRef s"
  by (simp add: onstop_begin_def Let_def)

lemma onstop_end_flag: "\<not> isProcessingRef (onstop_end electron result s)"
  by (simp add: onstop_end_def Let_def)

lemma example_setupStates:
  "length (setupStates exampleEnv (startRecording_begin None initialHookState)) = 5 \<and>
   streamRef (last (setupStates exampleEnv (startRecording_begin None initialHookState)))
     = Some (DisplayStream 1)"
  by (simp add: setupStates_def storeDisplayStream_def requestMicrophone_def requestCamera_def
      composeStreams_def startRecording_begin_def initialHookState_def exampleEnv_def Let_def)

text \<open>
  The handler of an earlier recorder can end while a later call is setting up. Here a
  session is started and stopped, its \<^verbatim>\<open>onstop\<close> handler begins the export, and a call sets
  the flag and waits for the display stream. When the export ends the handler clears the
  flag, and a further call, made while the first one still waits, is not rejected: it opens
  its own feeds, temporary file and recorder.
\<close>

lemma call_after_onstop_end_example:
  "isProcessingRef (startRecording_begin None (onstop_begin True stoppedSession)) \<and>
   \<not> isProcessingRef (onstop_end True savedResult
        (startRecording_begin None (onstop_begin True stoppedSession))) \<and>
   effects (startRecording exampleEnv ''screen:0'' None
      (onstop_end True savedResult
         (startRecording_begin None (onstop_begin True stoppedSession))))
     = [OpenDisplayFeed 1, OpenMicrophoneFeed 2, OpenTempFile,
        CreateMediaRecorder (DisplayStream 1), StartMediaRecorder, StopMediaRecorder,
        StopFeed 1,
        OpenDisplayFeed 1, OpenMicrophoneFeed 2, OpenTempFile,
        CreateMediaRecorder (DisplayStream 1), StartMediaRecorder]"
  by (simp add: stoppedSession_def savedResult_def onstop_begin_def onstop_end_def
       stopRecording_def stopRef_def
       startRecording_def startRecording_setup_def startRecording_begin_def
       acquireFeeds_def storeDisplayStream_def requestMicrophone_def requestCamera_def
       initialHookState_def exampleEnv_def composeStreams_def
       startMediaRecorder_def adjustQueueDepth_def new_FrameBuffer_def Let_def)

section \<open>Claims about startRecording\<close>

text \<open>
  C1, as the claim states it: a call to \<^verbatim>\<open>startRecording\<close> made while a session is
  Recording is rejected by the flag and does nothing. It is not: the \<^verbatim>\<open>finally\<close> block of
  the call that started the session has cleared the flag. After one successful call from the
  initial state the hook is recording, not paused, with one display feed, one microphone
  feed, one temporary file and one recorder; a second call opens a second display feed, a
  second microphone feed and a second temporary file and creates a second recorder.
\<close>

theorem C1_start_while_recording_counterexample:
  "isRecording (startRecording exampleEnv ''screen:0'' None initialHookState) \<and>
   \<not> isPaused (startRecording exampleEnv ''screen:0'' None initialHookState) \<and>
   mediaRecorderRef (startRecording exampleEnv ''screen:0'' None initialHookState)
     = Some RecorderRecording \<and>
   effects (startRecording exampleEnv ''screen:0'' None initialHookState)
     = [OpenDisplayFeed 1, OpenMicrophoneFeed 2, OpenTempFile,
        CreateMediaRecorder (DisplayStream 1), StartMediaRecorder] \<and>
   effects (startRecording exampleEnv ''screen:0'' None
             (startRecording exampleEnv ''screen:0'' None initialHookState))
     = [OpenDisplayFeed 1, OpenMicrophoneFeed 2, OpenTempFile,
        CreateMediaRecorder (DisplayStream 1), StartMediaRecorder,
        OpenDisplayFeed 1, OpenMicrophoneFeed 2, OpenTempFile,
        CreateMediaRecorder (DisplayStream 1), StartMediaRecorder]"
  by (simp add: startRecording_def startRecording_setup_def startRecording_begin_def
       acquireFeeds_def storeDisplayStream_def requestMicrophone_def requestCamera_def initialHookState_def exampleEnv_def composeStreams_def
       startMediaRecorder_def adjustQueueDepth_def new_FrameBuffer_def Let_def)

text \<open>
  C1, amended. A call to \<^verbatim>\<open>startRecording\<close> that finds the flag \<^verbatim>\<open>isProcessingRef\<close> set is
  a no-op: it returns the state as it found it, effects included, so it opens no feed,
  creates no recorder and opens no temporary file. A call that is not rejected sets the flag
  in its first statement, and no step of its own setup clears it: the flag is set in every
  state the call itself produces while it waits for the platform, and a call arriving in
  one of them is rejected. What the call does after its last await starts from the last of
  these states and ends with the \<^verbatim>\<open>finally\<close> block, which clears the flag, on success and
  on failure. Pausing, resuming and stopping, the timer with the auto-stop effects, and the
  first half of a recorder's \<^verbatim>\<open>onstop\<close> handler leave the flag as it is; the second half of
  the handler clears it, also when it ends during the setup of a later call, as in the
  example above. So once a call has ended, the flag stays cleared while the session is
  Recording, Paused or Stopping, and a call made then is not rejected: it runs the setup.
\<close>

theorem C1_start_rejected_while_flag_set:
  "(isProcessingRef s \<longrightarrow> startRecording env sourceId region s = s) \<and>
   (\<forall>t\<in>set (setupStates env (startRecording_begin region s)).
      isProcessingRef t \<and> startRecording env' sourceId' region' t = t) \<and>
   (\<not> isProcessingRef s \<longrightarrow>
      (case displayStream env of
         Inl msg \<Rightarrow>
           setupStates env (startRecording_begin region s) = [startRecording_begin region s] \<and>
           startRecording env sourceId region s =
             (start_failed msg (startRecording_begin region s))\<lparr>isProcessingRef := False\<rparr>
       | Inr display \<Rightarrow>
           (\<exists>finalStream.
              streamRef (last (setupStates env (startRecording_begin region s)))
                = Some finalStream \<and>
              startRecording env sourceId region s =
                (startMediaRecorder env finalStream
                   (last (setupStates env (startRecording_begin region s))))
                \<lparr>isProcessingRef := False\<rparr>)) \<and>
      \<not> isProcessingRef (startRecording env sourceId region s)) \<and>
   isProcessingRef (pauseRecording s) = isProcessingRef s \<and>
   isProcessingRef (resumeRecording s) = isProcessingRef s \<and>
   isProcessingRef (stopRecording s) = isProcessingRef s \<and>
   isProcessingRef (run m evs s) = isProcessingRef s \<and>
   isProcessingRef (onstop_begin electron s) = isProcessingRef s \<and>
   \<not> isProcessingRef (onstop_end electron result s) \<and>
   (\<not> isProcessingRef s \<longrightarrow>
      startRecording env' sourceId' region'
          (onstop_begin electron (run m evs (startRecording env sourceId region s)))
        = startRecording_setup env' (startRecording_begin region'
            (onstop_begin electron (run m evs (startRecording env sourceId region s)))) \<and>
      startRecording env' sourceId' region' (run m evs (startRecording env sourceId region s))
        = startRecording_setup env' (startRecording_begin region'
            (run m evs (startRecording env sourceId region s))))"
proof -
  let ?b = "startRecording_begin region s"
  have b: "isProcessingRef ?b" by (simp add: startRecording_begin_def)
  have rejected: "isProcessingRef s \<longrightarrow> startRecording env sourceId region s = s"
    by (simp add: startRecording_def)
  have waiting: "\<forall>t\<in>set (setupStates env ?b).
      isProcessingRef t \<and> startRecording env' sourceId' region' t = t"
  proof
    fix t assume "t \<in> set (setupStates env ?b)"
    from setupStates_flag [OF this] b have "isProcessingRef t" by simp
    then show "isProcessingRef t \<and> startRecording env' sourceId' region' t = t"
      by (simp add: startRecording_def)
  qed
  have cleared: "\<not> isProcessingRef s \<longrightarrow> \<not> isProcessingRef (startRecording env sourceId region s)"
    by (simp add: startRecording_def startRecording_setup_clears_flag)
  have trace: "\<not> isProcessingRef s \<longrightarrow>
      (case displayStream env of
         Inl msg \<Rightarrow>
           setupStates env ?b = [?b] \<and>
           startRecording env sourceId region s =
             (start_failed msg ?b)\<lparr>isProcessingRef := False\<rparr>
       | Inr display \<Rightarrow>
           (\<exists>finalStream.
              streamRef (last (setupStates env ?b)) = Some finalStream \<and>
              startRecording env sourceId region s =
                (startMediaRecorder env finalStream (last (setupStates env ?b)))
                \<lparr>isProcessingRef := False\<rparr>))"
  proof (cases "displayStream env")
    case (Inl msg)
    with setupStates_rejected [OF Inl, of ?b] show ?thesis by (simp add: startRecording_def)
  next
    case (Inr d)
    with setupStates_last [OF Inr, of ?b] show ?thesis by (simp add: startRecording_def)
  qed
  have later: "\<not> isProcessingRef s \<longrightarrow>
      startRecording env' sourceId' region'
          (onstop_begin electron (run m evs (startRecording env sourceId region s)))
        = startRecording_setup env' (startRecording_begin region'
            (onstop_begin electron (run m evs (startRecording env sourceId region s)))) \<and>
      startRecording env' sourceId' region' (run m evs (startRecording env sourceId region s))
        = startRecording_setup env' (startRecording_begin region'
            (run m evs (startRecording env sourceId region s)))"
    using cleared
    by (simp add: startRecording_def [of env' sourceId' region'] onstop_begin_flag run_flag)
  have flags: "isProcessingRef (pauseRecording s) = isProcessingRef s \<and>
      isProcessingRef (resumeRecording s) = isProcessingRef s \<and>
      isProcessingRef (stopRecording s) = isProcessingRef s \<and>
      isProcessingRef (run m evs s) = isProcessingRef s \<and>
      isProcessingRef (onstop_begin electron s) = isProcessingRef s \<and>
      \<not> isProcessingRef (onstop_end electron result s)"
    by (simp only: stopRecording_flag pauseRecording_flag resumeRecording_flag run_flag
        onstop_begin_flag onstop_end_flag simp_thms)
  from rejected waiting cleared trace later flags show ?thesis by blast
qed


theorem C1_start_rejected_while_flag_set_witness:
  "\<not> isProcessingRef initialHookState \<and>
   displayStream exampleEnv = Inr 1 \<and>
   length (setupStates exampleEnv (startRecording_begin None initialHookState)) = 5 \<and>
   list_all (\<lambda>t. isProcessingRef t \<and> startRecording exampleEnv ''screen:1'' None t = t)
     (setupStates exampleEnv (startRecording_begin None initialHookState)) \<and>
   startRecording exampleEnv ''screen:0'' None initialHookState =
     (startMediaRecorder exampleEnv (DisplayStream 1)
        (last (setupStates exampleEnv (startRecording_begin None initialHookState))))
     \<lparr>isProcessingRef := False\<rparr> \<and>
   \<not> isProcessingRef (startRecording exampleEnv ''screen:0'' None initialHookState) \<and>
   startRecording exampleEnv ''screen:1'' None
       (run 600 [Tick, Pause, Resume, Stop]
          (startRecording exampleEnv ''screen:0'' None initialHookState))
     = startRecording_setup exampleEnv (startRecording_begin None
         (run 600 [Tick, Pause, Resume, Stop]
            (startRecording exampleEnv ''screen:0'' None initialHookState))) \<and>
   isProcessingRef (startRecording_begin None (onstop_begin True stoppedSession)) \<and>
   \<not> isProcessingRef (onstop_end True savedResult
        (startRecording_begin None (onstop_begin True stoppedSession)))"
proof -
  have n: "\<not> isProcessingRef initialHookState"
    by (simp add: initialHookState_def)
  have d: "displayStream exampleEnv = Inr 1"
    by (simp add: exampleEnv_def)
  have b: "isProcessingRef (startRecording_begin None (onstop_begin True stoppedSession))"
    by (simp add: startRecording_begin_def)
  from n d b example_setupStates
    C1_start_rejected_while_flag_set
      [of initialHookState exampleEnv "''screen:0''" None exampleEnv "''screen:1''" None
          600 "[Tick, Pause, Resume, Stop]" True savedResult]
    C1_start_rejected_while_flag_set
      [of "startRecording_begin None (onstop_begin True stoppedSession)" exampleEnv
          "''screen:0''" None exampleEnv "''screen:1''" None 600 "[]" True savedResult]
  show ?thesis
    by (auto simp add: list_all_iff)
qed

text \<open>
  C5. Take a call to \<^verbatim>\<open>startRecording\<close> that is not rejected and obtains the display stream.
  The stream handed to the recorder is the canvas stream (Composite Mode) if and only if a
  region was passed or the webcam overlay is active. In that case a canvas is created. In
  every other case (Direct Mode) the stream is the display stream itself and the call
  creates no canvas. When the call ends recording, the recorder was created on that stream.
\<close>

theorem C5_composite_iff_region_or_overlay:
  assumes "\<not> isProcessingRef s" and "displayStream env = Inr d"
  shows "((\<exists>fps. streamRef (startRecording env src region s) = Some (CanvasStream fps))
            \<longleftrightarrow> region \<noteq> None \<or> overlayActive env s) \<and>
         (region \<noteq> None \<or> overlayActive env s \<longrightarrow>
            (\<exists>w h. CreateCanvas w h \<in> set (effects (startRecording env src region s)))) \<and>
         (\<not> (region \<noteq> None \<or> overlayActive env s) \<longrightarrow>
            streamRef (startRecording env src region s) = Some (DisplayStream d) \<and>
            filter isCreateCanvas (effects (startRecording env src region s))
              = filter isCreateCanvas (effects s)) \<and>
         (isRecording (startRecording env src region s) \<longrightarrow>
            (\<exists>fs. streamRef (startRecording env src region s) = Some fs \<and>
                  CreateMediaRecorder fs \<in> set (effects (startRecording env src region s))))"
proof -
  let ?b = "acquireFeeds env d (startRecording_begin region s)"
  let ?r = "startRecording env src region s"
  let ?cond = "region \<noteq> None \<or> overlayActive env s"
  have cond: "((includeCamera ?b \<and> cameraStreamRef ?b \<noteq> None) \<or> recordingRegionRef ?b \<noteq> None)
      = ?cond"
    by (auto simp add: acquireFeeds_facts overlayActive_def split: option.splits)
  have cs: "composeStreams env d ?b =
      (if ?cond then compositeMode env ?b else (DisplayStream d, ?b))"
    unfolding composeStreams_cases cond by (rule refl)
  obtain fs s4 where c: "composeStreams env d ?b = (fs, s4)"
    by (cases "composeStreams env d ?b")
  have res: "?r = (startMediaRecorder env fs (s4\<lparr>streamRef := Some fs\<rparr>))\<lparr>isProcessingRef := False\<rparr>"
    using startRecording_unfold [OF assms, of src region] c by simp
  have sr: "streamRef ?r = Some fs"
    by (simp add: res startMediaRecorder_streamRef)
  have cv: "filter isCreateCanvas (effects ?r) = filter isCreateCanvas (effects s4)"
    by (simp add: res startMediaRecorder_canvas)
  have rec: "isRecording ?r \<longrightarrow> CreateMediaRecorder fs \<in> set (effects ?r)"
    using startMediaRecorder_success [of env fs "s4\<lparr>streamRef := Some fs\<rparr>"]
    by (simp add: res)
  show ?thesis
  proof (cases ?cond)
    case True
    with c cs have cm: "compositeMode env ?b = (fs, s4)" by simp
    from compositeMode_facts(1) [of env ?b] cm obtain fps where fps: "fs = CanvasStream fps"
      by auto
    from compositeMode_facts(2) [of env ?b] cm obtain w h
      where "CreateCanvas w h \<in> set (effects s4)" by auto
    then have "CreateCanvas w h \<in> set (filter isCreateCanvas (effects s4))"
      by (simp add: isCreateCanvas_def)
    then have "CreateCanvas w h \<in> set (filter isCreateCanvas (effects ?r))"
      using cv by simp
    then have "CreateCanvas w h \<in> set (effects ?r)"
      by simp
    then show ?thesis using True sr fps rec by auto
  next
    case False
    with c cs have fs: "fs = DisplayStream d" "s4 = ?b" by simp_all
    show ?thesis using False sr fs cv rec by (simp add: acquireFeeds_facts)
  qed
qed

theorem C5_composite_iff_region_or_overlay_witness:
  "\<not> isProcessingRef (initialHookState\<lparr>includeCamera := True\<rparr>) \<and>
   displayStream (exampleEnv\<lparr>camStream := Some 3\<rparr>) = Inr 1 \<and>
   overlayActive (exampleEnv\<lparr>camStream := Some 3\<rparr>) (initialHookState\<lparr>includeCamera := True\<rparr>) \<and>
   streamRef (startRecording (exampleEnv\<lparr>camStream := Some 3\<rparr>) ''screen:0'' None
                (initialHookState\<lparr>includeCamera := True\<rparr>)) = Some (CanvasStream 30) \<and>
   CreateCanvas 1920 1080 \<in> set (effects
     (startRecording (exampleEnv\<lparr>camStream := Some 3\<rparr>) ''screen:0'' None
        (initialHookState\<lparr>includeCamera := True\<rparr>))) \<and>
   isRecording (startRecording (exampleEnv\<lparr>camStream := Some 3\<rparr>) ''screen:0'' None
                  (initialHookState\<lparr>includeCamera := True\<rparr>))"
  using C5_composite_iff_region_or_overlay
    [of "initialHookState\<lparr>includeCamera := True\<rparr>" "exampleEnv\<lparr>camStream := Some 3\<rparr>" 1
        "''screen:0''" None]
  by (simp add: startRecording_def startRecording_setup_def startRecording_begin_def
       acquireFeeds_def storeDisplayStream_def requestMicrophone_def requestCamera_def initialHookState_def exampleEnv_def composeStreams_def
       compositeMode_def videoSize_def calculateOptimalScale_def calculateOptimalFps_def
       getCPUCores_def computeCropRect_def overlayActive_def
       startMediaRecorder_def adjustQueueDepth_def new_FrameBuffer_def Let_def)

section \<open>Properties of the duration limit\<close>

lemma core_cleanupStreams: "core (cleanupStreams s) = core s"
  by (simp add: core_def cleanupStreams_def licenseAlerts_def stopRef_def split: option.splits)

lemma core_stopRecording: "core (stopRecording s) = core_stop (core s)"
proof (cases "mediaRecorderRef s")
  case None
  then show ?thesis
    using core_cleanupStreams [of s] by (simp add: stopRecording_def core_def)
next
  case (Some st)
  show ?thesis
  proof (cases "st = RecorderInactive")
    case True
    with Some show ?thesis using core_cleanupStreams [of s] by (simp add: stopRecording_def core_def)
  next
    case False
    with Some show ?thesis by (simp add: stopRecording_def core_def licenseAlerts_def)
  qed
qed

lemma core_gifAutoStopEffect: "core (gifAutoStopEffect snap s) = core_gif (core snap) (core s)"
proof -
  obtain r p d mr f a where c: "core snap = (r, p, d, mr, f, a)" by (cases "core snap")
  then have "r = isRecording snap" "f = saveFormat snap" "d = recordingDuration snap"
    by (simp_all add: core_def)
  then show ?thesis using c by (simp add: gifAutoStopEffect_def core_stopRecording)
qed

lemma core_append_alert:
  "core (s\<lparr>effects := effects s @ [AlertLicenseLimit]\<rparr>) = core_alert (core s)"
  by (simp add: core_def licenseAlerts_def)

lemma core_licenseLimitEffect:
  "core (licenseLimitEffect m snap s) = core_license m (core snap) (core s)"
proof -
  obtain r p d mr f a where c: "core snap = (r, p, d, mr, f, a)" by (cases "core snap")
  then have "r = isRecording snap" "p = isPaused snap" "d = recordingDuration snap"
    by (simp_all add: core_def)
  then show ?thesis using c
    by (simp add: licenseLimitEffect_def Let_def core_append_alert core_stopRecording)
qed

lemma core_runEffects: "core (runEffects m s) = core_pass m (core s)"
  by (simp add: runEffects_def core_pass_def core_licenseLimitEffect core_gifAutoStopEffect)

lemma core_handleEvent: "core (handleEvent ev s) = core_handle ev (core s)"
proof (cases ev)
  case Tick
  then show ?thesis by (simp add: core_def licenseAlerts_def)
next
  case Pause
  then show ?thesis by (simp add: core_def licenseAlerts_def pauseRecording_def)
next
  case Resume
  then show ?thesis by (simp add: core_def licenseAlerts_def resumeRecording_def)
next
  case Stop
  then show ?thesis by (simp add: core_stopRecording)
qed

lemma core_step: "core (step m ev s) = core_pass m (core_pass m (core_handle ev (core s)))"
  by (simp add: step_def core_runEffects core_handleEvent)

lemma coreInv_pass: "coreInv a0 m c \<Longrightarrow> core_pass m c = c"
  by (cases c) (auto simp add: core_pass_def split: option.splits if_splits)

lemma core_pass_stopped:
  "core_pass m (False, p, d, mr, f, a) = (False, p, d, mr, f, a)"
  by (simp add: core_pass_def)

lemma coreInv_handle_pass:
  assumes "coreInv a0 m c"
  shows "coreInv a0 m (core_pass m (core_handle ev c))"
proof -
  obtain r p d mr f a where c: "c = (r, p, d, mr, f, a)" by (cases c)
  from assms c obtain st where mr: "mr = Some st" by (cases mr) auto
  show ?thesis
  proof (cases ev)
    case Tick
    with assms c mr show ?thesis
      by (cases st) (auto simp add: core_pass_def)
  next
    case Pause
    with assms c mr show ?thesis
      by (cases st) (auto simp add: core_pass_def)
  next
    case Resume
    with assms c mr show ?thesis
      by (cases st) (auto simp add: core_pass_def)
  next
    case Stop
    with assms c mr show ?thesis
      by (cases st) (auto simp add: core_pass_def)
  qed
qed

lemma coreInv_step:
  assumes "coreInv a0 m (core s)"
  shows "coreInv a0 m (core (step m ev s))"
proof -
  let ?c = "core_pass m (core_handle ev (core s))"
  have inv: "coreInv a0 m ?c" using assms by (rule coreInv_handle_pass)
  then have "core_pass m ?c = ?c" by (rule coreInv_pass)
  then show ?thesis using inv by (simp add: core_step)
qed

lemma coreInv_run: "coreInv a0 m (core s) \<Longrightarrow> coreInv a0 m (core (run m evs s))"
  by (induction evs arbitrary: s) (simp_all add: coreInv_step)

lemma sessionStarted_coreInv:
  "sessionStarted s \<Longrightarrow> coreInv (licenseAlerts s) m (core s)"
  by (simp add: sessionStarted_def core_def)

lemma coreInv_runEffects_id:
  assumes "coreInv a0 m (core s)"
  shows "runEffects m s = s"
proof (cases "isRecording s")
  case False
  then show ?thesis
    by (simp add: runEffects_def gifAutoStopEffect_def licenseLimitEffect_def)
next
  case True
  with assms have "0 < m \<longrightarrow> recordingDuration s < m"
    and "saveFormat s = Gif \<longrightarrow> recordingDuration s < 60"
    by (simp_all add: core_def)
  then show ?thesis
    by (auto simp add: runEffects_def gifAutoStopEffect_def licenseLimitEffect_def)
qed

lemma core_limit_reached:
  assumes "coreInv a0 m (r, p, d, mr, f, a)" and "r" and "\<not> p" and "0 < m" and "d + 1 = m"
  shows "core_pass m (core_pass m (core_handle Tick (r, p, d, mr, f, a)))
           = (False, False, m, Some RecorderInactive, f, a0 + 1)"
proof -
  from assms(1,2) obtain st where mr: "mr = Some st" "st \<noteq> RecorderInactive" "a = a0"
    by (cases mr) auto
  with assms show ?thesis by (auto simp add: core_pass_def)
qed

lemma core_stopped_step:
  assumes "core s = (False, p, d, Some RecorderInactive, f, a)"
  shows "core (step m ev s) = core s"
  using assms by (cases ev) (simp_all add: core_step core_pass_def)

lemma core_stopped_run:
  "core s = (False, p, d, Some RecorderInactive, f, a) \<Longrightarrow> core (run m evs s) = core s"
proof (induction evs arbitrary: s)
  case Nil
  then show ?case by simp
next
  case (Cons ev evs)
  from core_stopped_step [OF Cons.prems, of m ev] Cons.prems
  have "core (step m ev s) = (False, p, d, Some RecorderInactive, f, a)" by simp
  from Cons.IH [OF this] this Cons.prems show ?case by simp
qed

lemma core_fields:
  "core s = (r, p, d, mr, f, a) \<Longrightarrow>
   isRecording s = r \<and> isPaused s = p \<and> recordingDuration s = d \<and> mediaRecorderRef s = mr \<and>
   saveFormat s = f \<and> licenseAlerts s = a"
  by (simp add: core_def)

lemma run_append: "run m (xs @ ys) s = run m ys (run m xs s)"
  by (induction xs arbitrary: s) simp_all

lemma core_ticks:
  "core s = (True, False, d, Some RecorderRecording, Mp4, a) \<Longrightarrow> m = 0 \<or> d + n < m \<Longrightarrow>
   core (run m (replicate n Tick) s) = (True, False, d + n, Some RecorderRecording, Mp4, a)"
proof (induction n arbitrary: s d)
  case 0
  then show ?case by simp
next
  case (Suc n)
  from Suc.prems have "core (step m Tick s) = (True, False, d + 1, Some RecorderRecording, Mp4, a)"
    by (auto simp add: core_step core_pass_def)
  moreover from Suc.prems(2) have "m = 0 \<or> (d + 1) + n < m" by auto
  ultimately have "core (run m (replicate n Tick) (step m Tick s))
      = (True, False, (d + 1) + n, Some RecorderRecording, Mp4, a)"
    by (rule Suc.IH)
  then show ?case by simp
qed

text \<open>
  The unlicensed case of the specification: an MP4 session that runs for 600 ticks without
  a pause is stopped by the 600th tick, with one license notice.
\<close>

lemma unlicensed_session_stops_at_600:
  assumes "sessionStarted s0" and "saveFormat s0 = Mp4"
  shows "core (run (getMaxRecordingDuration False) (replicate 600 Tick) s0)
           = (False, False, 600, Some RecorderInactive, Mp4, licenseAlerts s0 + 1)"
proof -
  let ?m = "getMaxRecordingDuration False"
  have m: "?m = 600" by (simp add: getMaxRecordingDuration_def)
  from assms have c0: "core s0 = (True, False, 0, Some RecorderRecording, Mp4, licenseAlerts s0)"
    by (simp add: core_def sessionStarted_def)
  have "core (run ?m (replicate 599 Tick) s0)
      = (True, False, 0 + 599, Some RecorderRecording, Mp4, licenseAlerts s0)"
    using c0 by (rule core_ticks) (simp add: m)
  then have "core (step ?m Tick (run ?m (replicate 599 Tick) s0))
      = (False, False, 600, Some RecorderInactive, Mp4, licenseAlerts s0 + 1)"
    by (simp add: core_step core_pass_def m)
  moreover have "replicate (599 + 1) Tick = replicate 599 Tick @ replicate 1 Tick"
    by (rule replicate_add)
  then have "replicate 600 Tick = replicate 599 Tick @ [Tick]" by simp
  ultimately show ?thesis by (simp only: run_append run.simps)
qed


text \<open>
  C6. Take a session that \<^verbatim>\<open>startRecording\<close> has started and any sequence of timer ticks,
  pauses, resumes and stops, with the license limit \<open>m\<close> that the licensing collaborator
  returns. The license notice is shown at most once. While the session is recording no
  notice has been shown and, when \<open>m > 0\<close>, the duration is below \<open>m\<close>. When the session is
  recording, not paused, and the next tick brings the duration to \<open>m > 0\<close>, that tick stops
  the recorder, ends the recording and shows the notice, and whatever happens afterwards
  the number of notices stays at one. With \<open>m = 0\<close> no notice is ever shown and the license
  effect does nothing. The effects are stable in every state reached (a further pass
  changes nothing). The unlicensed limit is 600 seconds, the licensed one 0.
\<close>

theorem C6_license_limit_stops_once:
  assumes "sessionStarted s0"
  shows "licenseAlerts (run m evs s0) \<le> licenseAlerts s0 + 1 \<and>
         (isRecording (run m evs s0) \<longrightarrow>
            licenseAlerts (run m evs s0) = licenseAlerts s0 \<and>
            (0 < m \<longrightarrow> recordingDuration (run m evs s0) < m)) \<and>
         (isRecording (run m evs s0) \<and> \<not> isPaused (run m evs s0) \<and> 0 < m \<and>
            recordingDuration (run m evs s0) + 1 = m \<longrightarrow>
              \<not> isRecording (step m Tick (run m evs s0)) \<and>
              mediaRecorderRef (step m Tick (run m evs s0)) = Some RecorderInactive \<and>
              recordingDuration (step m Tick (run m evs s0)) = m \<and>
              licenseAlerts (step m Tick (run m evs s0)) = licenseAlerts s0 + 1 \<and>
              (\<forall>evs'. licenseAlerts (run m evs' (step m Tick (run m evs s0)))
                        = licenseAlerts s0 + 1)) \<and>
         (m = 0 \<longrightarrow> licenseAlerts (run m evs s0) = licenseAlerts s0) \<and>
         licenseLimitEffect 0 snap s = s \<and>
         runEffects m (run m evs s0) = run m evs s0 \<and>
         getMaxRecordingDuration False = 600 \<and>
         getMaxRecordingDuration True = 0"
proof -
  let ?s = "run m evs s0"
  let ?a0 = "licenseAlerts s0"
  obtain r p d mr f a where c: "core ?s = (r, p, d, mr, f, a)" by (cases "core ?s")
  note fl = core_fields [OF c]
  have inv: "coreInv ?a0 m (core ?s)"
    using assms by (intro coreInv_run sessionStarted_coreInv)
  then have inv': "coreInv ?a0 m (r, p, d, mr, f, a)" by (simp only: c)
  from fl have fr: "isRecording ?s = r" and fd: "recordingDuration ?s = d"
    and fa: "licenseAlerts ?s = a" by simp_all
  have "a \<le> ?a0 + 1" using inv' by (cases r) simp_all
  then have bound: "licenseAlerts ?s \<le> ?a0 + 1" by (simp only: fa)
  have "r \<longrightarrow> a = ?a0 \<and> (0 < m \<longrightarrow> d < m)" using inv' by (cases r) simp_all
  then have while_rec: "isRecording ?s \<longrightarrow>
      licenseAlerts ?s = ?a0 \<and> (0 < m \<longrightarrow> recordingDuration ?s < m)"
    by (simp only: fa fr fd)
  have "m = 0 \<longrightarrow> a = ?a0" using inv' by (cases r) auto
  then have unlimited: "m = 0 \<longrightarrow> licenseAlerts ?s = ?a0" by (simp only: fa)
  have reach: "\<not> isRecording (step m Tick ?s) \<and>
      mediaRecorderRef (step m Tick ?s) = Some RecorderInactive \<and>
      recordingDuration (step m Tick ?s) = m \<and>
      licenseAlerts (step m Tick ?s) = ?a0 + 1 \<and>
      (\<forall>evs'. licenseAlerts (run m evs' (step m Tick ?s)) = ?a0 + 1)"
    if h: "isRecording ?s \<and> \<not> isPaused ?s \<and> 0 < m \<and> recordingDuration ?s + 1 = m"
  proof -
    from h fl have "r" "\<not> p" "0 < m" "d + 1 = m" by simp_all
    from core_limit_reached [OF inv' this]
    have c': "core (step m Tick ?s) = (False, False, m, Some RecorderInactive, f, ?a0 + 1)"
      by (simp add: core_step c)
    have "licenseAlerts (run m evs' (step m Tick ?s)) = ?a0 + 1" for evs'
      using core_stopped_run [OF c', of m evs'] c'
        core_fields [of "run m evs' (step m Tick ?s)" False False m "Some RecorderInactive" f "?a0 + 1"]
      by simp
    then show ?thesis using core_fields [OF c'] by simp
  qed
  have off: "licenseLimitEffect 0 snap s = s" by (simp add: licenseLimitEffect_def)
  have stable: "runEffects m ?s = ?s" using inv by (rule coreInv_runEffects_id)
  have lic: "getMaxRecordingDuration False = 600 \<and> getMaxRecordingDuration True = 0"
    by (simp add: getMaxRecordingDuration_def)
  from bound while_rec unlimited reach off stable lic show ?thesis by blast
qed

lemma started_example:
  "startRecording exampleEnv ''screen:0'' None initialHookState =
     initialHookState\<lparr>isRecording := True, displayStreamRef := Some 1,
       streamRef := Some (DisplayStream 1), mediaRecorderRef := Some RecorderRecording,
       frameBufferRef := Some \<lparr>queue = [], maxSize = 5, dropStrategy = DropOldest,
          targetFps = 30, framesReceived = 0, framesDropped = 0, framesProcessed = 0\<rparr>,
       effects := [OpenDisplayFeed 1, OpenMicrophoneFeed 2, OpenTempFile,
         CreateMediaRecorder (DisplayStream 1), StartMediaRecorder]\<rparr>"
  by (simp add: startRecording_def startRecording_setup_def startRecording_begin_def
       acquireFeeds_def storeDisplayStream_def requestMicrophone_def requestCamera_def initialHookState_def exampleEnv_def composeStreams_def
       startMediaRecorder_def adjustQueueDepth_def new_FrameBuffer_def Let_def)

theorem C6_license_limit_stops_once_witness:
  "sessionStarted (startRecording exampleEnv ''screen:0'' None initialHookState) \<and>
   isRecording (run 3 [Tick, Pause, Tick, Resume, Tick]
     (startRecording exampleEnv ''screen:0'' None initialHookState)) \<and>
   \<not> isPaused (run 3 [Tick, Pause, Tick, Resume, Tick]
     (startRecording exampleEnv ''screen:0'' None initialHookState)) \<and>
   recordingDuration (run 3 [Tick, Pause, Tick, Resume, Tick]
     (startRecording exampleEnv ''screen:0'' None initialHookState)) + 1 = 3 \<and>
   \<not> isRecording (step 3 Tick (run 3 [Tick, Pause, Tick, Resume, Tick]
     (startRecording exampleEnv ''screen:0'' None initialHookState))) \<and>
   licenseAlerts (step 3 Tick (run 3 [Tick, Pause, Tick, Resume, Tick]
     (startRecording exampleEnv ''screen:0'' None initialHookState))) = 1 \<and>
   licenseAlerts (run 3 [Tick, Stop, Resume] (step 3 Tick (run 3 [Tick, Pause, Tick, Resume, Tick]
     (startRecording exampleEnv ''screen:0'' None initialHookState)))) = 1"
  using C6_license_limit_stops_once [of "startRecording exampleEnv ''screen:0'' None initialHookState" 3
      "[Tick, Pause, Tick, Resume, Tick]"]
  unfolding started_example
  by (simp add: sessionStarted_def initialHookState_def step_def runEffects_def
      gifAutoStopEffect_def licenseLimitEffect_def pauseRecording_def resumeRecording_def
      stopRecording_def cleanupStreams_def stopRef_def licenseAlerts_def Let_def)

section \<open>Claims about the ffmpeg options\<close>






section \<open>Properties of the export handlers\<close>

lemma toString_1700: "toString 1700 = ''1700''"
  by code_simp

lemma exampleRecording_eq:
  "exampleRecording =
     \<lparr>recordingWriteStream = True,
      recordingTempPath = Some ''/tmp/stream-recording-1700.webm'',
      files = {''/tmp/stream-recording-1700.webm''}, sent = [], ffmpegOptions = None\<rparr>"
  by (simp add: exampleRecording_def start_recording_stream_def idleMainState_def
      toString_1700 Let_def)

lemma round_between:
  fixes x :: real
  assumes "of_int a \<le> x" and "x \<le> of_int b"
  shows "a \<le> round x \<and> round x \<le> b"
proof -
  from assms(1) have "round (of_int a :: real) \<le> round x" by (rule round_mono)
  moreover from assms(2) have "round x \<le> round (of_int b :: real)" by (rule round_mono)
  ultimately show ?thesis by simp
qed

lemma round_10_95:
  fixes x :: real
  assumes "10 \<le> x" and "x \<le> 95"
  shows "(10::real) \<le> of_int (round x) \<and> of_int (round x) \<le> (95::real)"
proof -
  have "(10::int) \<le> round x \<and> round x \<le> 95"
    using round_between [of 10 x 95] assms by simp
  then show ?thesis by (simp add: of_int_le_iff [symmetric] del: of_int_le_iff)
qed

lemma sent_unchanged: "st = st\<lparr>sent := sent st @ []\<rparr>"
  by simp

lemma gifEvent_emits:
  assumes "5 \<le> l" and "l \<le> 95"
  shows "\<exists>l' vs. gifEvent d ev (l, st) = (l', st\<lparr>sent := sent st @ vs\<rparr>) \<and>
           5 \<le> l' \<and> l' \<le> 95 \<and> (\<forall>v\<in>set vs. 5 \<le> v \<and> v \<le> 95)"
proof (cases ev)
  case (IntervalTick elapsed)
  show ?thesis
  proof (cases "l < 90")
    case True
    with IntervalTick assms have
      "gifEvent d ev (l, st) = (l + 5, st\<lparr>sent := sent st @ [l + 5]\<rparr>) \<and>
       5 \<le> l + 5 \<and> l + 5 \<le> 95 \<and> (\<forall>v\<in>set [l + 5]. 5 \<le> v \<and> v \<le> 95)"
      by (simp add: send_def)
    then show ?thesis by blast
  next
    case False
    with IntervalTick assms have
      "gifEvent d ev (l, st) = (l, st\<lparr>sent := sent st @ []\<rparr>) \<and>
       5 \<le> l \<and> l \<le> 95 \<and> (\<forall>v\<in>set []. 5 \<le> v \<and> v \<le> (95::real))"
      by simp
    then show ?thesis by blast
  qed
next
  case (NativeProgress percent timemark)
  have keep: "gifEvent d ev (l, st) = (l, st) \<Longrightarrow> ?thesis"
  proof -
    assume "gifEvent d ev (l, st) = (l, st)"
    with assms have
      "gifEvent d ev (l, st) = (l, st\<lparr>sent := sent st @ []\<rparr>) \<and>
       5 \<le> l \<and> l \<le> 95 \<and> (\<forall>v\<in>set []. 5 \<le> v \<and> v \<le> (95::real))"
      by simp
    then show ?thesis by blast
  qed
  have emit: "gifEvent d ev (l, st) = (min 95 (max 5 x), send (min 95 (max 5 x)) st) \<Longrightarrow> ?thesis"
    for x
  proof -
    assume "gifEvent d ev (l, st) = (min 95 (max 5 x), send (min 95 (max 5 x)) st)"
    then have
      "gifEvent d ev (l, st) = (min 95 (max 5 x), st\<lparr>sent := sent st @ [min 95 (max 5 x)]\<rparr>) \<and>
       5 \<le> min 95 (max 5 x) \<and> min 95 (max 5 x) \<le> 95 \<and>
       (\<forall>v\<in>set [min 95 (max 5 x)]. 5 \<le> v \<and> v \<le> 95)"
      by (simp add: send_def)
    then show ?thesis by blast
  qed
  show ?thesis
  proof (cases percent)
    case (Some pc)
    with NativeProgress show ?thesis by (intro emit [of pc]) (simp add: Let_def)
  next
    case None
    show ?thesis
    proof (cases timemark)
      case None
      with \<open>percent = None\<close> NativeProgress show ?thesis by (intro keep) simp
    next
      case (Some hms)
      obtain h m sec where hms: "hms = (h, m, sec)" by (cases hms)
      show ?thesis
      proof (cases "0 < d")
        case True
        with Some hms \<open>percent = None\<close> NativeProgress show ?thesis
          by (intro emit [of "((real h * 3600 + real m * 60 + sec) / d) * 100"])
             (simp add: Let_def)
      next
        case False
        with Some hms \<open>percent = None\<close> NativeProgress show ?thesis by (intro keep) simp
      qed
    qed
  qed
next
  case CommandStart
  with assms have
      "gifEvent d ev (l, st) = (l, st\<lparr>sent := sent st @ []\<rparr>) \<and>
       5 \<le> l \<and> l \<le> 95 \<and> (\<forall>v\<in>set []. 5 \<le> v \<and> v \<le> (95::real))"
    by simp
  then show ?thesis by blast
qed

lemma fold_emits:
  assumes step: "\<And>l st ev. I l \<Longrightarrow>
      \<exists>l' vs. f ev (l, st) = (l', st\<lparr>sent := sent st @ vs\<rparr>) \<and> I l' \<and> (\<forall>v\<in>set vs. P v)"
  shows "I l \<Longrightarrow>
      \<exists>l' vs. fold f evs (l, st) = (l', st\<lparr>sent := sent st @ vs\<rparr>) \<and> I l' \<and> (\<forall>v\<in>set vs. P v)"
proof (induction evs arbitrary: l st)
  case Nil
  then have "fold f [] (l, st) = (l, st\<lparr>sent := sent st @ []\<rparr>) \<and> I l \<and> (\<forall>v\<in>set []. P v)"
    by simp
  then show ?case by blast
next
  case (Cons ev evs)
  from step [OF Cons.prems, of ev st] obtain l1 vs1 where
    one: "f ev (l, st) = (l1, st\<lparr>sent := sent st @ vs1\<rparr>)" "I l1" "\<forall>v\<in>set vs1. P v"
    by blast
  from Cons.IH [OF one(2), of "st\<lparr>sent := sent st @ vs1\<rparr>"] obtain l2 vs2 where
    two: "fold f evs (l1, st\<lparr>sent := sent st @ vs1\<rparr>)
            = (l2, st\<lparr>sent := sent st @ vs1\<rparr>\<lparr>sent := sent (st\<lparr>sent := sent st @ vs1\<rparr>) @ vs2\<rparr>)"
      "I l2" "\<forall>v\<in>set vs2. P v" by blast
  have "fold f (ev # evs) (l, st) = (l2, st\<lparr>sent := sent st @ (vs1 @ vs2)\<rparr>) \<and>
       I l2 \<and> (\<forall>v\<in>set (vs1 @ vs2). P v)"
    using one two by auto
  then show ?case by blast
qed

lemma gif_fold_emits:
  assumes "5 \<le> l \<and> l \<le> 95"
  shows "\<exists>l' vs. fold (gifEvent d) evs (l, st) = (l', st\<lparr>sent := sent st @ vs\<rparr>) \<and>
           (5 \<le> l' \<and> l' \<le> 95) \<and> (\<forall>v\<in>set vs. 5 \<le> v \<and> v \<le> 95)"
proof (rule fold_emits [where I = "\<lambda>l. 5 \<le> l \<and> l \<le> 95" and P = "\<lambda>v. 5 \<le> v \<and> v \<le> 95"])
  show "5 \<le> l \<and> l \<le> 95" by (rule assms)
next
  fix l :: real and st ev
  assume "5 \<le> l \<and> l \<le> 95"
  then show "\<exists>l' vs. gifEvent d ev (l, st) = (l', st\<lparr>sent := sent st @ vs\<rparr>) \<and>
       (5 \<le> l' \<and> l' \<le> 95) \<and> (\<forall>v\<in>set vs. 5 \<le> v \<and> v \<le> 95)"
    using gifEvent_emits [of l d ev st] by blast
qed

lemma clamp_10_90: "10 \<le> min 90 (max 10 (X::real)) \<and> min 90 (max 10 X) \<le> 95"
  by (auto simp add: min_def max_def)

lemma clamp_10_95: "10 \<le> min 95 (max 10 (X::real)) \<and> min 95 (max 10 X) \<le> 95"
  by (auto simp add: min_def max_def)

lemma mp4Value_round:
  fixes x :: real
  shows "10 \<le> x \<Longrightarrow> x \<le> 95 \<Longrightarrow> mp4Value (of_int (round x))"
  using round_10_95 [of x] by (simp add: mp4Value_def)

lemma mp4_keep:
  assumes "10 \<le> l \<and> l \<le> 95" and "mp4Event c cores ad ev (l, st) = (l, st)"
  shows "\<exists>l' vs. mp4Event c cores ad ev (l, st) = (l', st\<lparr>sent := sent st @ vs\<rparr>) \<and>
           (10 \<le> l' \<and> l' \<le> 95) \<and> (\<forall>v\<in>set vs. mp4Value v)"
proof -
  from assms have "mp4Event c cores ad ev (l, st) = (l, st\<lparr>sent := sent st @ []\<rparr>) \<and>
      (10 \<le> l \<and> l \<le> 95) \<and> (\<forall>v\<in>set []. mp4Value v)" by simp
  then show ?thesis by blast
qed

lemma mp4_emit:
  fixes x y :: real
  assumes "mp4Event c cores ad ev (l, st) = (x, send (of_int (round y)) st)"
    and "10 \<le> x \<and> x \<le> 95" and "10 \<le> y \<and> y \<le> 95"
  shows "\<exists>l' vs. mp4Event c cores ad ev (l, st) = (l', st\<lparr>sent := sent st @ vs\<rparr>) \<and>
           (10 \<le> l' \<and> l' \<le> 95) \<and> (\<forall>v\<in>set vs. mp4Value v)"
proof -
  from assms have "mp4Event c cores ad ev (l, st)
        = (x, st\<lparr>sent := sent st @ [of_int (round y)]\<rparr>) \<and>
      (10 \<le> x \<and> x \<le> 95) \<and> (\<forall>v\<in>set [of_int (round y)]. mp4Value v)"
    by (simp add: send_def mp4Value_round)
  then show ?thesis by blast
qed

lemma mp4Event_emits:
  assumes I: "10 \<le> l \<and> l \<le> 95"
  shows "\<exists>l' vs. mp4Event c cores ad ev (l, st) = (l', st\<lparr>sent := sent st @ vs\<rparr>) \<and>
           (10 \<le> l' \<and> l' \<le> 95) \<and> (\<forall>v\<in>set vs. mp4Value v)"
proof (cases ev)
  case (IntervalTick elapsed)
  show ?thesis
  proof (cases c)
    case True
    show ?thesis
    proof (cases "l < 95")
      case l: True
      have "mp4Event c cores ad ev (l, st) = (95, send (of_int (round (95::real))) st)"
        using IntervalTick True l by simp
      then show ?thesis by (rule mp4_emit) simp_all
    next
      case False
      with IntervalTick True show ?thesis by (intro mp4_keep [OF I]) simp
    qed
  next
    case False
    define tb where "tb = timeBasedProgress cores ad elapsed"
    have tb: "10 \<le> tb \<and> tb \<le> 95"
      unfolding tb_def timeBasedProgress_def Let_def by (rule clamp_10_90)
    show ?thesis
    proof (cases "l < tb")
      case True
      have "mp4Event c cores ad ev (l, st) = (tb, send (of_int (round tb)) st)"
        using IntervalTick False True by (simp add: Let_def tb_def)
      from this tb tb show ?thesis by (rule mp4_emit)
    next
      case notb: False
      show ?thesis
      proof (cases "l < 50")
        case True
        have "mp4Event c cores ad ev (l, st) = (l + 3, send (of_int (round (l + 3))) st)"
          using IntervalTick False notb True by (simp add: Let_def tb_def)
        moreover have r: "10 \<le> l + 3 \<and> l + 3 \<le> 95" using I True by simp
        ultimately show ?thesis using r by (rule mp4_emit)
      next
        case False
        with IntervalTick \<open>\<not> c\<close> notb show ?thesis
          by (intro mp4_keep [OF I]) (simp add: Let_def tb_def)
      qed
    qed
  qed
next
  case (NativeProgress percent timemark)
  have emit: "mp4Event c cores ad ev (l, st)
        = (min 95 (max 10 x), send (of_int (round (min 95 (max 10 x)))) st) \<Longrightarrow> ?thesis" for x
    using clamp_10_95 [of x] by (intro mp4_emit [of c cores ad ev l st "min 95 (max 10 x)" "min 95 (max 10 x)"]) simp_all
  show ?thesis
  proof (cases percent)
    case (Some pc)
    with NativeProgress show ?thesis by (intro emit [of pc]) (simp add: Let_def)
  next
    case None
    show ?thesis
    proof (cases timemark)
      case None
      with \<open>percent = None\<close> NativeProgress show ?thesis by (intro mp4_keep [OF I]) simp
    next
      case (Some hms)
      obtain h m sec where hms: "hms = (h, m, sec)" by (cases hms)
      show ?thesis
      proof (cases "0 < ad")
        case True
        with Some hms \<open>percent = None\<close> NativeProgress show ?thesis
          by (intro emit [of "((real h * 3600 + real m * 60 + sec) / ad) * 100"])
             (simp add: Let_def)
      next
        case False
        with Some hms \<open>percent = None\<close> NativeProgress show ?thesis
          by (intro mp4_keep [OF I]) simp
      qed
    qed
  qed
next
  case CommandStart
  have "mp4Event c cores ad ev (l, st) = (l, send (of_int (round (15::real))) st)"
    using CommandStart by simp
  from this I show ?thesis by (rule mp4_emit) simp
qed

lemma mp4_fold_emits:
  assumes "10 \<le> l \<and> l \<le> 95"
  shows "\<exists>l' vs. fold (mp4Event c cores ad) evs (l, st) = (l', st\<lparr>sent := sent st @ vs\<rparr>) \<and>
           (10 \<le> l' \<and> l' \<le> 95) \<and> (\<forall>v\<in>set vs. mp4Value v)"
proof (rule fold_emits [where I = "\<lambda>l. 10 \<le> l \<and> l \<le> 95" and P = mp4Value])
  show "10 \<le> l \<and> l \<le> 95" by (rule assms)
next
  fix l :: real and st ev
  assume "10 \<le> l \<and> l \<le> 95"
  then show "\<exists>l' vs. mp4Event c cores ad ev (l, st) = (l', st\<lparr>sent := sent st @ vs\<rparr>) \<and>
       (10 \<le> l' \<and> l' \<le> 95) \<and> (\<forall>v\<in>set vs. mp4Value v)"
    by (rule mp4Event_emits)
qed

lemma finishJob_exported:
  assumes "sent st2 = sent st @ ws" and "\<forall>v\<in>set ws. progressValue format v"
    and "files st2 = files st" and "recordingWriteStream st2 = recordingWriteStream st"
    and "recordingTempPath st2 = recordingTempPath st"
  shows "\<exists>vs. exported format filePath st (finishJob env filePath st2) vs"
proof (cases "ffmpeg_error env")
  case None
  then have "exported format filePath st (finishJob env filePath st2) (ws @ [100])"
    using assms by (simp add: exported_def finishJob_def send_def)
  then show ?thesis by blast
next
  case (Some err)
  then have "exported format filePath st (finishJob env filePath st2) ws"
    using assms by (simp add: exported_def finishJob_def)
  then show ?thesis by blast
qed

lemma exportGif_exported:
  "\<exists>vs. exported Gif filePath st (exportGif env filePath d st) vs"
proof -
  let ?st1 = "st\<lparr>ffmpegOptions := Some gifOutputOptions\<rparr>"
  have "(5::real) \<le> 5 \<and> (5::real) \<le> 95" by simp
  from gif_fold_emits [OF this, of d "ffmpeg_events env" ?st1] obtain l' ws where
    f: "fold (gifEvent d) (ffmpeg_events env) (5, ?st1) = (l', ?st1\<lparr>sent := sent ?st1 @ ws\<rparr>)"
    and ws: "\<forall>v\<in>set ws. 5 \<le> v \<and> v \<le> 95" by blast
  have e: "exportGif env filePath d st = finishJob env filePath (?st1\<lparr>sent := sent ?st1 @ ws\<rparr>)"
    by (simp add: exportGif_def Let_def f)
  have "\<exists>vs. exported Gif filePath st (finishJob env filePath (?st1\<lparr>sent := sent ?st1 @ ws\<rparr>)) vs"
    by (rule finishJob_exported [where ws = ws]) (use ws in \<open>simp_all add: progressValue_def\<close>)
  then show ?thesis by (simp only: e)
qed

lemma exportMp4_exported:
  "\<exists>vs. exported Mp4 filePath st (exportMp4 env filePath st) vs"
proof -
  let ?opts = "mp4OutputOptions (getRecommendedPreset (darwin env) (cpus env))
                 (getRecommendedCRF (darwin env) (cpus env)) (ffprobe env)"
  let ?st2 = "send 10 (st\<lparr>ffmpegOptions := Some ?opts\<rparr>)"
  have "(10::real) \<le> 10 \<and> (10::real) \<le> 95" by simp
  from mp4_fold_emits [OF this, of "useStreamCopy (ffprobe env)" "cpus env"
      "actualDurationOf (ffprobe env)" "ffmpeg_events env" ?st2] obtain l' ws where
    f: "fold (mp4Event (useStreamCopy (ffprobe env)) (cpus env) (actualDurationOf (ffprobe env)))
          (ffmpeg_events env) (10, ?st2) = (l', ?st2\<lparr>sent := sent ?st2 @ ws\<rparr>)"
    and ws: "\<forall>v\<in>set ws. mp4Value v" by blast
  have e: "exportMp4 env filePath st = finishJob env filePath (?st2\<lparr>sent := sent ?st2 @ ws\<rparr>)"
    by (simp add: exportMp4_def Let_def f)
  have "\<exists>vs. exported Mp4 filePath st (finishJob env filePath (?st2\<lparr>sent := sent ?st2 @ ws\<rparr>)) vs"
    by (rule finishJob_exported [where ws = "10 # ws"])
       (use ws in \<open>auto simp add: progressValue_def mp4Value_def send_def\<close>)
  then show ?thesis by (simp only: e)
qed

lemma exportCopy_exported:
  "\<exists>vs. exported format filePath st (exportCopy tempInput filePath st) vs"
proof (cases "tempInput \<in> files st")
  case True
  then have "exported format filePath st (exportCopy tempInput filePath st) ([50] @ [100])"
    by (simp add: exported_def exportCopy_def copyFile_def send_def Let_def progressValue_def)
  then show ?thesis by blast
next
  case False
  then have "exported format filePath st (exportCopy tempInput filePath st) [50]"
    by (simp add: exported_def exportCopy_def copyFile_def send_def Let_def progressValue_def)
  then show ?thesis by blast
qed

lemma processExport_exported:
  "\<exists>vs. exported format filePath st (processExport env format tempInput filePath st) vs"
proof (cases format)
  case Gif
  then show ?thesis using exportGif_exported by (simp add: processExport_def)
next
  case Mp4
  then show ?thesis
    using exportMp4_exported [of filePath st env]
      exportCopy_exported [of Mp4 filePath st tempInput]
    by (simp add: processExport_def)
qed

lemma stop_declined:
  assumes "recordingWriteStream st" and "recordingTempPath st = Some tempInput"
    and "declined env"
  shows "stop_recording_stream env format st
           = cancelExport tempInput (st\<lparr>recordingWriteStream := False\<rparr>)"
  using assms
  by (auto simp add: stop_recording_stream_def declined_def falsy_def Let_def
      split: option.splits)

lemma stop_accepted:
  assumes "recordingWriteStream st" and "recordingTempPath st = Some tempInput"
    and "\<not> declined env"
  shows "\<exists>filePath. dialog_filePath env = Some filePath \<and>
           stop_recording_stream env format st
             = runExport env format tempInput filePath (st\<lparr>recordingWriteStream := False\<rparr>)"
  using assms
  by (auto simp add: stop_recording_stream_def declined_def falsy_def Let_def
      split: option.splits)

lemma cancelExport_facts:
  "fst (cancelExport tempInput st)
     = \<lparr>success = False, path = None, error = None, canceled = Some True\<rparr>"
  "tempInput \<notin> files (snd (cancelExport tempInput st))"
  "sent (snd (cancelExport tempInput st)) = sent st"
  "recordingWriteStream (snd (cancelExport tempInput st)) = recordingWriteStream st"
  by (simp_all add: cancelExport_def unlink_def)

lemma runExport_facts:
  fixes st :: MainState and env :: StopEnv and format :: SaveFormat
    and tempInput filePath :: string
  defines "r \<equiv> runExport env format tempInput filePath st"
  shows "\<exists>vs. sent (snd r) = sent st @ 5 # vs \<and>
           recordingWriteStream (snd r) = recordingWriteStream st \<and>
           ((isSuccess (fst r) \<and> path (fst r) = Some filePath \<and>
               tempInput \<notin> files (snd r) \<and>
               (\<exists>ws. vs = ws @ [100] \<and> (\<forall>v\<in>set ws. progressValue format v))) \<or>
            (isError (fst r) \<and> (tempInput \<in> files (snd r) \<longleftrightarrow> tempInput \<in> files st) \<and>
               ((\<forall>v\<in>set vs. progressValue format v) \<or>
                (\<exists>ws. vs = ws @ [100] \<and> (\<forall>v\<in>set ws. progressValue format v)))))"
proof -
  let ?st2 = "send 5 st"
  obtain failure st3 where p: "processExport env format tempInput filePath ?st2 = (failure, st3)"
    by (cases "processExport env format tempInput filePath ?st2")
  from processExport_exported [of format filePath ?st2 env tempInput] p obtain vs where
    ex: "exported format filePath ?st2 (failure, st3) vs" by auto
  then have sent3: "sent st3 = sent st @ 5 # vs"
    and rws: "recordingWriteStream st3 = recordingWriteStream st"
    by (simp_all add: exported_def send_def)
  show ?thesis
  proof (cases failure)
    case (Some err)
    with p have r: "r = (\<lparr>success = False, path = None, error = Some err, canceled = None\<rparr>, st3)"
      by (simp add: r_def runExport_def Let_def)
    from ex Some have "\<forall>v\<in>set vs. progressValue format v" "files st3 = files st"
      by (simp_all add: exported_def send_def)
    with r sent3 rws show ?thesis by (auto simp add: isError_def)
  next
    case None
    with ex have ws: "\<exists>ws. vs = ws @ [100] \<and> (\<forall>v\<in>set ws. progressValue format v)"
      and f3: "files st3 = insert filePath (files st)"
      by (simp_all add: exported_def send_def)
    show ?thesis
    proof (cases "tempInput \<in> files st3")
      case True
      with p None have r: "r = (\<lparr>success = True, path = Some filePath, error = None,
          canceled = None\<rparr>, st3\<lparr>files := files st3 - {tempInput}\<rparr>)"
        by (simp add: r_def runExport_def Let_def unlink_def)
      with sent3 rws ws show ?thesis by (auto simp add: isSuccess_def)
    next
      case False
      with p None have r: "r = (\<lparr>success = False, path = None,
          error = Some ''ENOENT: no such file or directory'', canceled = None\<rparr>, st3)"
        by (simp add: r_def runExport_def Let_def unlink_def)
      from False f3 have "tempInput \<notin> files st" by simp
      with r sent3 rws ws False show ?thesis by (auto simp add: isError_def)
    qed
  qed
qed

lemma result_shapes_exclusive:
  "\<not> (isSuccess res \<and> isError res) \<and> \<not> (isSuccess res \<and> isCanceled res) \<and>
   \<not> (isError res \<and> isCanceled res)"
  by (auto simp add: isSuccess_def isError_def isCanceled_def)

text \<open>
  C8. Take an invocation of \<^verbatim>\<open>stop-recording-stream\<close> with an active stream (the write
  stream and its temporary path are set). The result has exactly one of three shapes:
  success with a path, failure with an error, or failure with \<^verbatim>\<open>canceled: true\<close>. It is the
  cancelled one exactly when the user declines the save dialog, and then the temporary file
  is gone. On success the temporary file is gone and the path is the one chosen in the
  dialog. On an error the temporary file is as it was: an existing temporary file is
  deleted on success and on cancel, and kept exactly when the result is an error. The
  stream is closed in every case.
\<close>

theorem C8_stop_result_shapes_and_temp_file:
  assumes "recordingWriteStream st" and "recordingTempPath st = Some tempInput"
  shows "(isSuccess (fst (stop_recording_stream env format st)) \<or>
          isError (fst (stop_recording_stream env format st)) \<or>
          isCanceled (fst (stop_recording_stream env format st))) \<and>
         \<not> (isSuccess (fst (stop_recording_stream env format st)) \<and>
            isError (fst (stop_recording_stream env format st))) \<and>
         \<not> (isSuccess (fst (stop_recording_stream env format st)) \<and>
            isCanceled (fst (stop_recording_stream env format st))) \<and>
         \<not> (isError (fst (stop_recording_stream env format st)) \<and>
            isCanceled (fst (stop_recording_stream env format st))) \<and>
         (isCanceled (fst (stop_recording_stream env format st)) \<longleftrightarrow> declined env) \<and>
         (declined env \<longrightarrow> tempInput \<notin> files (snd (stop_recording_stream env format st))) \<and>
         (isSuccess (fst (stop_recording_stream env format st)) \<longrightarrow>
            tempInput \<notin> files (snd (stop_recording_stream env format st)) \<and>
            path (fst (stop_recording_stream env format st)) = dialog_filePath env) \<and>
         (isError (fst (stop_recording_stream env format st)) \<longrightarrow>
            (tempInput \<in> files (snd (stop_recording_stream env format st))
               \<longleftrightarrow> tempInput \<in> files st)) \<and>
         (tempInput \<in> files st \<longrightarrow>
            (tempInput \<in> files (snd (stop_recording_stream env format st))
               \<longleftrightarrow> isError (fst (stop_recording_stream env format st)))) \<and>
         \<not> recordingWriteStream (snd (stop_recording_stream env format st))"
proof (cases "declined env")
  case True
  let ?st1 = "st\<lparr>recordingWriteStream := False\<rparr>"
  have r: "stop_recording_stream env format st = cancelExport tempInput ?st1"
    using assms True by (rule stop_declined)
  have c: "isCanceled (fst (cancelExport tempInput ?st1))"
    by (simp add: cancelExport_facts(1) isCanceled_def)
  from result_shapes_exclusive [of "fst (cancelExport tempInput ?st1)"] c
  have n: "\<not> isSuccess (fst (cancelExport tempInput ?st1))"
    "\<not> isError (fst (cancelExport tempInput ?st1))" by blast+
  from True c n cancelExport_facts(2) [of tempInput ?st1] cancelExport_facts(4) [of tempInput ?st1]
  show ?thesis unfolding r by simp
next
  case False
  let ?st1 = "st\<lparr>recordingWriteStream := False\<rparr>"
  from stop_accepted [OF assms False, of format] obtain filePath where
    fp: "dialog_filePath env = Some filePath"
    and r: "stop_recording_stream env format st = runExport env format tempInput filePath ?st1"
    by blast
  let ?r = "runExport env format tempInput filePath ?st1"
  from runExport_facts [of env format tempInput filePath ?st1] obtain vs where
    w: "recordingWriteStream (snd ?r) = recordingWriteStream ?st1"
    and d: "(isSuccess (fst ?r) \<and> path (fst ?r) = Some filePath \<and> tempInput \<notin> files (snd ?r)) \<or>
            (isError (fst ?r) \<and> (tempInput \<in> files (snd ?r) \<longleftrightarrow> tempInput \<in> files ?st1))"
    by blast
  from d result_shapes_exclusive [of "fst ?r"] False fp w
  show ?thesis unfolding r by auto
qed

lemma example_stop_mp4:
  "stop_recording_stream exampleStopEnv Mp4 exampleRecording =
     (\<lparr>success = True, path = Some ''/home/user/recording.mp4'', error = None, canceled = None\<rparr>,
      \<lparr>recordingWriteStream = False,
       recordingTempPath = Some ''/tmp/stream-recording-1700.webm'',
       files = {''/home/user/recording.mp4''}, sent = [5, 10, 15, 10, 100],
       ffmpegOptions = Some (mp4OutputOptions ''slow'' 16 vp8_without_audio)\<rparr>)"
  unfolding exampleRecording_eq
  by (auto simp add: stop_recording_stream_def runExport_def processExport_def exportMp4_def
      finishJob_def send_def unlink_def endsWith_def exampleStopEnv_def
      getRecommendedPreset_def getRecommendedCRF_def getPerformanceTier_def Let_def)

lemma example_stop_failed:
  "stop_recording_stream (exampleStopEnv\<lparr>ffmpeg_error := Some ''ffmpeg exited with code 1''\<rparr>)
       Mp4 exampleRecording =
     (\<lparr>success = False, path = None, error = Some ''ffmpeg exited with code 1'', canceled = None\<rparr>,
      \<lparr>recordingWriteStream = False,
       recordingTempPath = Some ''/tmp/stream-recording-1700.webm'',
       files = {''/tmp/stream-recording-1700.webm''}, sent = [5, 10, 15, 10],
       ffmpegOptions = Some (mp4OutputOptions ''slow'' 16 vp8_without_audio)\<rparr>)"
  unfolding exampleRecording_eq
  by (auto simp add: stop_recording_stream_def runExport_def processExport_def exportMp4_def
      finishJob_def send_def unlink_def endsWith_def exampleStopEnv_def
      getRecommendedPreset_def getRecommendedCRF_def getPerformanceTier_def Let_def)

lemma example_stop_declined:
  "stop_recording_stream (exampleStopEnv\<lparr>dialog_canceled := True\<rparr>) Mp4 exampleRecording =
     (\<lparr>success = False, path = None, error = None, canceled = Some True\<rparr>,
      \<lparr>recordingWriteStream = False,
       recordingTempPath = Some ''/tmp/stream-recording-1700.webm'',
       files = {}, sent = [], ffmpegOptions = None\<rparr>)"
  unfolding exampleRecording_eq
  by (simp add: stop_recording_stream_def cancelExport_def unlink_def exampleStopEnv_def Let_def)

theorem C8_stop_result_shapes_and_temp_file_witness:
  "recordingWriteStream exampleRecording \<and>
   recordingTempPath exampleRecording = Some ''/tmp/stream-recording-1700.webm'' \<and>
   ''/tmp/stream-recording-1700.webm'' \<in> files exampleRecording \<and>
   declined (exampleStopEnv\<lparr>dialog_canceled := True\<rparr>) \<and>
   isCanceled (fst (stop_recording_stream (exampleStopEnv\<lparr>dialog_canceled := True\<rparr>) Mp4
                      exampleRecording)) \<and>
   ''/tmp/stream-recording-1700.webm'' \<notin> files (snd (stop_recording_stream
       (exampleStopEnv\<lparr>dialog_canceled := True\<rparr>) Mp4 exampleRecording)) \<and>
   isSuccess (fst (stop_recording_stream exampleStopEnv Mp4 exampleRecording)) \<and>
   ''/tmp/stream-recording-1700.webm'' \<notin> files (snd (stop_recording_stream exampleStopEnv Mp4
       exampleRecording)) \<and>
   isError (fst (stop_recording_stream
       (exampleStopEnv\<lparr>ffmpeg_error := Some ''ffmpeg exited with code 1''\<rparr>) Mp4
       exampleRecording)) \<and>
   ''/tmp/stream-recording-1700.webm'' \<in> files (snd (stop_recording_stream
       (exampleStopEnv\<lparr>ffmpeg_error := Some ''ffmpeg exited with code 1''\<rparr>) Mp4
       exampleRecording))"
  using C8_stop_result_shapes_and_temp_file
      [of exampleRecording "''/tmp/stream-recording-1700.webm''"
          "exampleStopEnv\<lparr>dialog_canceled := True\<rparr>" Mp4]
    C8_stop_result_shapes_and_temp_file
      [of exampleRecording "''/tmp/stream-recording-1700.webm''" exampleStopEnv Mp4]
    C8_stop_result_shapes_and_temp_file
      [of exampleRecording "''/tmp/stream-recording-1700.webm''"
          "exampleStopEnv\<lparr>ffmpeg_error := Some ''ffmpeg exited with code 1''\<rparr>" Mp4]
  unfolding example_stop_mp4 example_stop_failed example_stop_declined
  by (simp add: exampleRecording_eq declined_def exampleStopEnv_def isSuccess_def isError_def
      isCanceled_def)

lemma clamp_5_95: "5 \<le> min 95 (max 5 (X::real)) \<and> min 95 (max 5 X) \<le> 95"
  by (auto simp add: min_def max_def)

lemma gif_native_clamped:
  "\<forall>v\<in>set (progressOf st (snd (gifEvent d (NativeProgress pc tm) (l, st)))). 5 \<le> v \<and> v \<le> 95"
proof (cases pc)
  case (Some x)
  then show ?thesis using clamp_5_95 [of x] by (simp add: progressOf_def send_def Let_def)
next
  case None
  show ?thesis
  proof (cases tm)
    case None
    with \<open>pc = None\<close> show ?thesis by (simp add: progressOf_def)
  next
    case (Some hms)
    obtain h m sec where hms: "hms = (h, m, sec)" by (cases hms)
    show ?thesis
    proof (cases "0 < d")
      case True
      with Some hms \<open>pc = None\<close> show ?thesis
        using clamp_5_95 [of "((real h * 3600 + real m * 60 + sec) / d) * 100"]
        by (simp add: progressOf_def send_def Let_def)
    next
      case False
      with Some hms \<open>pc = None\<close> show ?thesis by (simp add: progressOf_def)
    qed
  qed
qed

lemma mp4_native_clamped:
  "\<forall>v\<in>set (progressOf st (snd (mp4Event c cores ad (NativeProgress pc tm) (l, st)))).
     10 \<le> v \<and> v \<le> 95 \<and> v \<in> \<int>"
proof (cases pc)
  case (Some x)
  then show ?thesis
    using clamp_10_95 [of x] round_10_95 [of "min 95 (max 10 x)"]
    by (simp add: progressOf_def send_def Let_def)
next
  case None
  show ?thesis
  proof (cases tm)
    case None
    with \<open>pc = None\<close> show ?thesis by (simp add: progressOf_def)
  next
    case (Some hms)
    obtain h m sec where hms: "hms = (h, m, sec)" by (cases hms)
    show ?thesis
    proof (cases "0 < ad")
      case True
      with Some hms \<open>pc = None\<close> show ?thesis
        using clamp_10_95 [of "((real h * 3600 + real m * 60 + sec) / ad) * 100"]
          round_10_95 [of "min 95 (max 10 (((real h * 3600 + real m * 60 + sec) / ad) * 100))"]
        by (simp add: progressOf_def send_def Let_def)
    next
      case False
      with Some hms \<open>pc = None\<close> show ?thesis by (simp add: progressOf_def)
    qed
  qed
qed

lemma progress_list_facts:
  assumes "(\<forall>v\<in>set vs. progressValue format v) \<or>
           (\<exists>ws. vs = ws @ [100] \<and> (\<forall>v\<in>set ws. progressValue format v))"
  shows "(\<forall>v\<in>set (5 # vs). 5 \<le> v \<and> v \<le> 100) \<and>
         (\<forall>v\<in>set (butlast (5 # vs)). v \<le> 95) \<and>
         (format = Mp4 \<longrightarrow> (\<forall>v\<in>set (5 # vs). v \<in> \<int>))"
proof -
  from assms show ?thesis
  proof
    assume a: "\<forall>v\<in>set vs. progressValue format v"
    have "\<forall>v\<in>set (butlast (5 # vs)). v \<le> 95"
    proof
      fix v assume "v \<in> set (butlast (5 # vs))"
      then have "v \<in> set (5 # vs)" by (rule in_set_butlastD)
      with a show "v \<le> 95" by (auto simp add: progressValue_def)
    qed
    with a show ?thesis by (auto simp add: progressValue_def)
  next
    assume "\<exists>ws. vs = ws @ [100] \<and> (\<forall>v\<in>set ws. progressValue format v)"
    then obtain ws where ws: "vs = ws @ [100]" "\<forall>v\<in>set ws. progressValue format v" by blast
    have "butlast (5 # vs) = 5 # ws" using ws(1) by simp
    with ws show ?thesis by (auto simp add: progressValue_def)
  qed
qed

lemma stop_no_export:
  assumes "\<not> recordingWriteStream st \<or> recordingTempPath st = None"
  shows "sent (snd (stop_recording_stream env format st)) = sent st \<and>
         \<not> isSuccess (fst (stop_recording_stream env format st))"
  using assms
  by (auto simp add: stop_recording_stream_def Let_def isSuccess_def split: option.splits)

text \<open>
  The values one export sends lie between 5 and 100, every value but the last is at most
  95, a successful export starts with 5 and ends with 100, and for MP4 output every value
  is an integer.
\<close>

lemma export_progress_bounds:
  "sent (snd (stop_recording_stream env format st))
     = sent st @ progressOf st (snd (stop_recording_stream env format st)) \<and>
   (\<forall>v\<in>set (progressOf st (snd (stop_recording_stream env format st))). 5 \<le> v \<and> v \<le> 100) \<and>
   (\<forall>v\<in>set (butlast (progressOf st (snd (stop_recording_stream env format st)))). v \<le> 95) \<and>
   (format = Mp4 \<longrightarrow>
      (\<forall>v\<in>set (progressOf st (snd (stop_recording_stream env format st))). v \<in> \<int>)) \<and>
   (isSuccess (fst (stop_recording_stream env format st)) \<longrightarrow>
      hd (progressOf st (snd (stop_recording_stream env format st))) = 5 \<and>
      last (progressOf st (snd (stop_recording_stream env format st))) = 100)"
proof -
  let ?r = "stop_recording_stream env format st"
  show ?thesis
  proof (cases "recordingWriteStream st \<and> recordingTempPath st \<noteq> None")
    case False
    then have "\<not> recordingWriteStream st \<or> recordingTempPath st = None" by simp
    from stop_no_export [OF this, of env format]
    have e: "sent (snd ?r) = sent st" and n: "\<not> isSuccess (fst ?r)" by simp_all
    have pe: "progressOf st (snd ?r) = []" by (simp add: progressOf_def e)
    show ?thesis unfolding pe using e n by simp
  next
    case True
    then obtain tempInput where active: "recordingWriteStream st"
      "recordingTempPath st = Some tempInput" by auto
    let ?st1 = "st\<lparr>recordingWriteStream := False\<rparr>"
    show ?thesis
    proof (cases "declined env")
      case True
      have "?r = cancelExport tempInput ?st1" using active True by (rule stop_declined)
      with cancelExport_facts(1,3) [of tempInput ?st1]
      have e: "sent (snd ?r) = sent st" and n: "\<not> isSuccess (fst ?r)"
        by (simp_all add: isSuccess_def)
      have pe: "progressOf st (snd ?r) = []" by (simp add: progressOf_def e)
      show ?thesis unfolding pe using e n by simp
    next
      case False
      from stop_accepted [OF active False, of format] obtain filePath where
        r: "?r = runExport env format tempInput filePath ?st1" by blast
      from runExport_facts [of env format tempInput filePath ?st1] obtain vs where
        s: "sent (snd (runExport env format tempInput filePath ?st1)) = sent ?st1 @ 5 # vs"
        and d: "(isSuccess (fst (runExport env format tempInput filePath ?st1)) \<and>
                  (\<exists>ws. vs = ws @ [100] \<and> (\<forall>v\<in>set ws. progressValue format v))) \<or>
                (isError (fst (runExport env format tempInput filePath ?st1)) \<and>
                  ((\<forall>v\<in>set vs. progressValue format v) \<or>
                   (\<exists>ws. vs = ws @ [100] \<and> (\<forall>v\<in>set ws. progressValue format v))))"
        by blast
      from s r have p: "progressOf st (snd ?r) = 5 # vs" and s': "sent (snd ?r) = sent st @ 5 # vs"
        by (simp_all add: progressOf_def)
      from d have "(\<forall>v\<in>set vs. progressValue format v) \<or>
           (\<exists>ws. vs = ws @ [100] \<and> (\<forall>v\<in>set ws. progressValue format v))" by blast
      note f = progress_list_facts [OF this]
      have h: "isSuccess (fst ?r) \<longrightarrow> hd (5 # vs) = 5 \<and> last (5 # vs) = 100"
        using d r result_shapes_exclusive [of "fst ?r"] by auto
      from f h s' show ?thesis unfolding p by blast
    qed
  qed
qed

lemma useStreamCopy_h264_with_aac: "useStreamCopy h264_with_aac"
  by (simp add: useStreamCopy_def h264_with_aac_def videoCodecOf_def audioCodecOf_def
      codecOf_def probeMetadata_def toLowerCase_def Let_def)

lemma example_stop_tick:
  "sent (snd (stop_recording_stream
       (exampleStopEnv\<lparr>ffmpeg_events := [CommandStart, IntervalTick (3 / 10)]\<rparr>)
       Mp4 exampleRecording)) = [5, 10, 15, 13, 100]"
  unfolding exampleRecording_eq
  by (auto simp add: stop_recording_stream_def runExport_def processExport_def exportMp4_def
      finishJob_def send_def unlink_def endsWith_def exampleStopEnv_def timeBasedProgress_def
      speedFactor_def vp8_without_audio_def actualDurationOf_def inputDurationOf_def
      useStreamCopy_def videoCodecOf_def audioCodecOf_def codecOf_def probeMetadata_def
      toLowerCase_def getRecommendedPreset_def getRecommendedCRF_def getPerformanceTier_def
      Let_def)

lemma example_stop_copy:
  "sent (snd (stop_recording_stream
       (exampleStopEnv\<lparr>ffprobe := h264_with_aac,
          ffmpeg_events := [IntervalTick (3 / 10), NativeProgress (Some 20) None]\<rparr>)
       Mp4 exampleRecording)) = [5, 10, 95, 20, 100]"
  unfolding exampleRecording_eq
  by (auto simp add: stop_recording_stream_def runExport_def processExport_def exportMp4_def
      finishJob_def send_def unlink_def endsWith_def exampleStopEnv_def
      useStreamCopy_h264_with_aac Let_def)

lemma example_stop_gif:
  "sent (snd (stop_recording_stream
       (exampleStopEnv\<lparr>dialog_filePath := Some ''/home/user/recording.gif'',
          ffmpeg_events := [IntervalTick (1 / 2), IntervalTick 1,
                            NativeProgress (Some 7) None]\<rparr>)
       Gif exampleRecording)) = [5, 10, 15, 7, 100]"
  unfolding exampleRecording_eq
  by (auto simp add: stop_recording_stream_def runExport_def processExport_def exportGif_def
      finishJob_def send_def unlink_def exampleStopEnv_def Let_def)

text \<open>
  C9. The claim: the values sent on \<^verbatim>\<open>export-progress\<close> during one export never decrease.
  The fallback interval is written to keep them so: it sends a value only when it exceeds
  \<^verbatim>\<open>lastProgress\<close>, or after raising \<^verbatim>\<open>lastProgress\<close>. But the handler of the command's
  start sends 15 without recording it in \<^verbatim>\<open>lastProgress\<close>, and the handler of the encoder's
  progress assigns \<^verbatim>\<open>lastProgress\<close> and sends the value without comparing them. So the code
  sends a lower value after a higher one. In an export to MP4 that re-encodes, the start
  marker 15 is followed by 13 when the interval fires 0.3 seconds later, and by 10 when the
  encoder reports 2 percent. In an export to MP4 by stream copy, the interval sends 95 and a
  report of 20 percent follows it. In an export to GIF, two firings of the interval send 10
  and 15 and a report of 7 percent follows them. Each of these exports succeeds.
\<close>

theorem C9_export_progress_decreases:
  "progressOf exampleRecording
     (snd (stop_recording_stream
        (exampleStopEnv\<lparr>ffmpeg_events := [CommandStart, IntervalTick (3 / 10)]\<rparr>)
        Mp4 exampleRecording)) = [5, 10, 15, 13, 100] \<and>
   progressOf exampleRecording
     (snd (stop_recording_stream exampleStopEnv Mp4 exampleRecording)) = [5, 10, 15, 10, 100] \<and>
   progressOf exampleRecording
     (snd (stop_recording_stream
        (exampleStopEnv\<lparr>ffprobe := h264_with_aac,
           ffmpeg_events := [IntervalTick (3 / 10), NativeProgress (Some 20) None]\<rparr>)
        Mp4 exampleRecording)) = [5, 10, 95, 20, 100] \<and>
   progressOf exampleRecording
     (snd (stop_recording_stream
        (exampleStopEnv\<lparr>dialog_filePath := Some ''/home/user/recording.gif'',
           ffmpeg_events := [IntervalTick (1 / 2), IntervalTick 1,
                             NativeProgress (Some 7) None]\<rparr>)
        Gif exampleRecording)) = [5, 10, 15, 7, 100] \<and>
   \<not> sorted [5, 10, 15, 13, 100 :: real] \<and>
   \<not> sorted [5, 10, 15, 10, 100 :: real] \<and>
   \<not> sorted [5, 10, 95, 20, 100 :: real] \<and>
   \<not> sorted [5, 10, 15, 7, 100 :: real]"
  unfolding progressOf_def example_stop_tick example_stop_copy example_stop_gif example_stop_mp4
  by (simp add: exampleRecording_eq)

end
